theory Spec2Isabelle
  imports Main
begin

section \<open>Data model\<close>

text \<open>
  The exceptions the modelled code raises. \<open>ValidationError\<close> carries the literal
  message of the source; \<open>ValidatorError\<close> is what a helper of the validators module
  raises: the subject it was given and the failed requirement.
\<close>

datatype pyval = PNone | PInt int | PStr string | PSentinel

datatype requirement =
    MustBeNotEmpty
  | MustBeEmpty
  | MustBeGreaterThanZero
  | MinItemCount nat
  | MustHaveType
  | MustBeEqual pyval pyval

datatype error =
    ValueError string
  | AssertionError
  | TypeError
  | MissingEarlierBlocksError
  | NotImplementedError
  | ValidationError string
  | ValidatorError string requirement
  | AttributeError

text \<open>
  An account state of a block (\<open>balance\<close>, \<open>balance_lock\<close> as
  \<open>memory_blockchain.py\<close> and \<open>block_message.py\<close> read them). The lock is optional.
\<close>

record account_state =
  balance :: int
  balance_lock :: "string option"

text \<open>
  A timestamp field as Python sees it: unset, a value that is no \<open>datetime\<close>, or a
  \<open>datetime\<close> with its instant (microseconds) and its optional \<open>tzinfo\<close>.
\<close>

datatype py_timestamp = TsNone | TsNotDatetime | TsDatetime int "string option"

text \<open>
  The signed change request. Its class is not part of the modelled files; the record holds
  what the block message reads of it: the signer, whether it is a
  \<open>CoinTransferSignedChangeRequest\<close>, the results of \<open>get_sent_amount()\<close> and
  \<open>get_recipient_amount(recipient)\<close>, and the hash that \<open>make_balance_lock\<close> derives
  from its content.
\<close>

record signed_change_request =
  signer :: string
  is_coin_transfer :: bool
  sent_amount :: int
  recipient_amount :: "string \<Rightarrow> int"
  request_hash :: string

text \<open>
  \<open>BlockMessage\<close>: \<open>updated_account_states\<close> is a Python dict, kept as an association
  list in insertion order (the order of \<open>items()\<close>); lookups go through \<open>map_of\<close>.
\<close>

record block_message =
  block_type :: string
  signed_change_request :: signed_change_request
  timestamp :: py_timestamp
  block_number :: int
  block_identifier :: string
  updated_account_states :: "(string \<times> account_state) list"

record block =
  message :: block_message

text \<open>
  A snapshot (account root file): the balances it records, and the number and timestamp
  of its last block, both absent for the initial one.
\<close>

record account_balance =
  "value" :: int
  lock :: "string option"

record account_root_file =
  accounts :: "(string \<times> account_balance) list"
  last_block_number :: "int option"
  last_block_timestamp :: "int option"

record memory_blockchain =
  account_root_files :: "account_root_file list"
  blocks :: "block list"

section \<open>MemoryBlockchain: the block store\<close>

text \<open>\<open>persist_block\<close> appends (a copy of) the block to the end of the list.\<close>

definition persist_block :: "memory_blockchain \<Rightarrow> block \<Rightarrow> memory_blockchain" where
  "persist_block bc b = bc\<lparr>blocks := blocks bc @ [b]\<rparr>"

definition get_head_block :: "memory_blockchain \<Rightarrow> block option" where
  "get_head_block bc = (if blocks bc \<noteq> [] then Some (last (blocks bc)) else None)"

text \<open>
  \<open>blocks[block_index]\<close> with Python's indexing: a negative index counts from the end,
  and an index outside the list raises \<open>IndexError\<close> (here \<open>None\<close>).
\<close>

definition py_index :: "'a list \<Rightarrow> int \<Rightarrow> 'a option" where
  "py_index xs i =
     (if 0 \<le> i \<and> i < int (length xs) then Some (xs ! nat i)
      else if i < 0 \<and> - int (length xs) \<le> i then Some (xs ! nat (int (length xs) + i))
      else None)"

text \<open>
  The body of \<open>get_block_by_number\<close>, over the list of stored objects \<open>bs\<close> and the
  way \<open>num\<close> to read \<open>.message.block_number\<close> of one of them. The store of values
  below and the store of references further down both run this one body.
\<close>

definition lookup_by_number :: "('a \<Rightarrow> int) \<Rightarrow> 'a list \<Rightarrow> int \<Rightarrow> error + 'a option" where
  "lookup_by_number num bs n =
     (if n < 0 then Inl (ValueError ''block_number must be greater or equal to 0'')
      else if bs = [] then Inr None
      else
        let head_block_number = num (last bs) in
        if n > head_block_number then Inr None
        else
          let block_index = n - head_block_number - 1 in
          case py_index bs block_index of
            Some b \<Rightarrow> Inr (Some b)
          | None \<Rightarrow>
              if num (hd bs) > n
              then Inl MissingEarlierBlocksError
              else Inl AssertionError)"

definition get_block_by_number :: "memory_blockchain \<Rightarrow> int \<Rightarrow> error + block option" where
  "get_block_by_number bc n =
     lookup_by_number (\<lambda>b. block_number (message b)) (blocks bc) n"

text \<open>
  The store's invariant of the data model: block numbers are sequential, each stored
  block's number is its predecessor's plus one.
\<close>

definition block_numbers :: "memory_blockchain \<Rightarrow> int list" where
  "block_numbers bc = map (\<lambda>b. block_number (message b)) (blocks bc)"

fun sequential :: "int list \<Rightarrow> bool" where
  "sequential [] = True"
| "sequential [x] = True"
| "sequential (x # y # ys) = (y = x + 1 \<and> sequential (y # ys))"

text \<open>
  Read newest first, a store with sequential block numbers counts down from the head's
  number: \<open>descending g h ys\<close> says that \<open>g\<close> is \<open>h\<close>, \<open>h - 1\<close>, ... along \<open>ys\<close>.
\<close>

fun descending :: "('a \<Rightarrow> int) \<Rightarrow> int \<Rightarrow> 'a list \<Rightarrow> bool" where
  "descending g h [] = True"
| "descending g h (y # ys) = (g y = h \<and> descending g (h - 1) ys)"

section \<open>MemoryBlockchain: the snapshots\<close>

definition get_last_account_root_file :: "memory_blockchain \<Rightarrow> account_root_file option" where
  "get_last_account_root_file bc =
     (if account_root_files bc \<noteq> [] then Some (last (account_root_files bc)) else None)"

definition get_first_account_root_file :: "memory_blockchain \<Rightarrow> account_root_file option" where
  "get_first_account_root_file bc =
     (if account_root_files bc \<noteq> [] then Some (hd (account_root_files bc)) else None)"

definition get_account_root_files_reversed :: "memory_blockchain \<Rightarrow> account_root_file list" where
  "get_account_root_files_reversed bc = rev (account_root_files bc)"

text \<open>
  Modelled from the spec: \<open>get_closest_account_root_file\<close> is a method of the base class
  \<open>BlockchainBase\<close>, which is not among the modelled files. The specification's
  \<open>closestAtOrBefore(blockNumber | none)\<close>: none is the most recent snapshot overall;
  otherwise the latest snapshot whose \<open>lastBlockNumber\<close> is at most the block number,
  the initial snapshot (no \<open>lastBlockNumber\<close>) matching any target.
\<close>

definition covers_at_or_before :: "int \<Rightarrow> account_root_file \<Rightarrow> bool" where
  "covers_at_or_before k a = (case last_block_number a of None \<Rightarrow> True | Some l \<Rightarrow> l \<le> k)"

definition get_closest_account_root_file ::
  "memory_blockchain \<Rightarrow> int option \<Rightarrow> account_root_file option" where
  "get_closest_account_root_file bc n =
     (case n of
        None \<Rightarrow> get_last_account_root_file bc
      | Some k \<Rightarrow> find (covers_at_or_before k) (get_account_root_files_reversed bc))"

text \<open>
  Modelled from the spec: \<open>get_closest_blockchain_state_snapshot\<close>, the name under which
  \<open>block_message.py\<close> calls the same lookup of the base class.
\<close>

definition get_closest_blockchain_state_snapshot ::
  "memory_blockchain \<Rightarrow> int \<Rightarrow> account_root_file option" where
  "get_closest_blockchain_state_snapshot bc n = get_closest_account_root_file bc (Some n)"

text \<open>
  Modelled from the spec: the accessors of \<open>AccountRootFile\<close>, a class outside the
  modelled files. A snapshot's recorded value for an account defaults to 0 and its lock to
  absent when the account is unseen; a snapshot is initial when it has no last block number.
\<close>

definition get_balance_value :: "account_root_file \<Rightarrow> string \<Rightarrow> int" where
  "get_balance_value arf account =
     (case map_of (accounts arf) account of None \<Rightarrow> 0 | Some b \<Rightarrow> value b)"

definition get_balance_lock :: "account_root_file \<Rightarrow> string \<Rightarrow> string option" where
  "get_balance_lock arf account =
     (case map_of (accounts arf) account of None \<Rightarrow> None | Some b \<Rightarrow> lock b)"

definition is_initial :: "account_root_file \<Rightarrow> bool" where
  "is_initial arf = (last_block_number arf = None)"

section \<open>MemoryBlockchain: balance and lock resolution\<close>

text \<open>
  \<open>itertools.islice(xs, start, stop, 1)\<close>: the elements at positions
  \<open>start \<le> i < stop\<close>; a negative \<open>start\<close> or \<open>stop\<close> raises \<open>ValueError\<close>.
\<close>

definition islice :: "'a list \<Rightarrow> int \<Rightarrow> int \<Rightarrow> error + 'a list" where
  "islice xs start stop =
     (if start < 0 \<or> stop < 0
      then Inl (ValueError ''Indices for islice() must be None or an integer: 0 <= x <= sys.maxsize.'')
      else Inr (take (nat stop - nat start) (drop (nat start) xs)))"

text \<open>
  \<open>BlockMessage.get_account_state\<close>: the dict lookup \<open>updated_account_states.get(account)\<close>
  (\<open>memory_blockchain.py\<close> calls it \<open>get_balance\<close>).
\<close>

definition get_account_state :: "block_message \<Rightarrow> string \<Rightarrow> account_state option" where
  "get_account_state m account = map_of (updated_account_states m) account"

text \<open>
  \<open>get_blocks_until_account_root_file\<close> is a generator. It is modelled by the list of
  what successive \<open>next()\<close> calls give: \<open>Inr\<close> a yielded block, \<open>Inl\<close> an exception
  raised inside the generator, after which nothing more is read. A consumer that stops
  early never sees the later outcomes, as with the lazy generator.
\<close>

definition get_blocks_until_account_root_file ::
  "memory_blockchain \<Rightarrow> int option \<Rightarrow> (error + block) list" where
  "get_blocks_until_account_root_file bc start_block_number =
     (if (case start_block_number of None \<Rightarrow> False | Some s \<Rightarrow> s < 0) then []
      else if blocks bc = [] then []
      else
        case get_closest_account_root_file bc start_block_number of
          None \<Rightarrow> []
        | Some account_root_file \<Rightarrow>
            let account_root_file_block_number = last_block_number account_root_file in
            if \<not> (case (start_block_number, account_root_file_block_number) of
                     (Some s, Some a) \<Rightarrow> a \<le> s
                   | _ \<Rightarrow> True)
            then [Inl AssertionError]
            else
              let current_head_block_number = block_number (message (last (blocks bc)));
                  offset = (case start_block_number of
                              None \<Rightarrow> 0
                            | Some s \<Rightarrow> current_head_block_number - s);
                  blocks_to_return =
                    (case account_root_file_block_number of
                       None \<Rightarrow> int (length (blocks bc)) - offset
                     | Some a \<Rightarrow> current_head_block_number - a - offset)
              in
                case islice (rev (blocks bc)) offset (offset + blocks_to_return) of
                  Inl e \<Rightarrow> [Inl e]
                | Inr bs \<Rightarrow>
                    map (\<lambda>b. if (case account_root_file_block_number of
                                    None \<Rightarrow> True
                                  | Some a \<Rightarrow> a < block_number (message b))
                              then Inr b else Inl AssertionError) bs)"

text \<open>The \<open>for\<close> loop of \<open>_get_balance_from_block\<close> over the generator's outcomes.\<close>

fun balance_from_blocks :: "string \<Rightarrow> (error + block) list \<Rightarrow> error + int option" where
  "balance_from_blocks account [] = Inr None"
| "balance_from_blocks account (Inl e # rest) = Inl e"
| "balance_from_blocks account (Inr b # rest) =
     (case get_account_state (message b) account of
        Some st \<Rightarrow> Inr (Some (balance st))
      | None \<Rightarrow> balance_from_blocks account rest)"

definition get_balance_from_block ::
  "memory_blockchain \<Rightarrow> string \<Rightarrow> int option \<Rightarrow> error + int option" where
  "get_balance_from_block bc account target =
     balance_from_blocks account (get_blocks_until_account_root_file bc target)"

definition get_balance_from_account_root_file ::
  "memory_blockchain \<Rightarrow> string \<Rightarrow> int option \<Rightarrow> error + int" where
  "get_balance_from_account_root_file bc account target =
     (case get_closest_account_root_file bc target of
        None \<Rightarrow> Inl AssertionError
      | Some account_root_file \<Rightarrow> Inr (get_balance_value account_root_file account))"

definition get_account_balance ::
  "memory_blockchain \<Rightarrow> string \<Rightarrow> int option \<Rightarrow> error + int" where
  "get_account_balance bc account target =
     (if (case target of None \<Rightarrow> False | Some n \<Rightarrow> n < - 1)
      then Inl (ValueError ''block_number must be greater or equal to -1'')
      else
        case get_balance_from_block bc account target of
          Inl e \<Rightarrow> Inl e
        | Inr (Some b) \<Rightarrow> Inr b
        | Inr None \<Rightarrow> get_balance_from_account_root_file bc account target)"

text \<open>
  The loop of \<open>get_account_balance_lock\<close>: \<open>if balance_lock:\<close> is Python's truth test,
  false for \<open>None\<close> and for the empty string.
\<close>

definition lock_is_set :: "string option \<Rightarrow> bool" where
  "lock_is_set l = (case l of None \<Rightarrow> False | Some s \<Rightarrow> s \<noteq> [])"

fun lock_from_blocks :: "string \<Rightarrow> (error + block) list \<Rightarrow> error + string option" where
  "lock_from_blocks account [] = Inr None"
| "lock_from_blocks account (Inl e # rest) = Inl e"
| "lock_from_blocks account (Inr b # rest) =
     (case get_account_state (message b) account of
        Some st \<Rightarrow>
          if lock_is_set (balance_lock st) then Inr (balance_lock st)
          else lock_from_blocks account rest
      | None \<Rightarrow> lock_from_blocks account rest)"

definition get_account_balance_lock :: "memory_blockchain \<Rightarrow> string \<Rightarrow> error + string option" where
  "get_account_balance_lock bc account =
     (case lock_from_blocks account (get_blocks_until_account_root_file bc None) of
        Inl e \<Rightarrow> Inl e
      | Inr (Some l) \<Rightarrow> Inr (Some l)
      | Inr None \<Rightarrow>
          (case get_closest_account_root_file bc None of
             None \<Rightarrow> Inl AssertionError
           | Some account_root_file \<Rightarrow> Inr (get_balance_lock account_root_file account)))"

section \<open>MemoryBlockchain: chain validation\<close>

definition validate_account_root_files :: "memory_blockchain \<Rightarrow> error + unit" where
  "validate_account_root_files bc =
     (if account_root_files bc = []
      then Inl (ValidationError ''Blockchain must contain at least one account root file'')
      else Inr ())"

text \<open>
  The iterator \<open>blocks_iter\<close> of \<open>validate_blocks\<close>. \<open>offset or 0\<close> is the offset, 0 for
  \<open>None\<close>; \<open>islice(blocks, start)\<close> with its single bound is \<open>islice(blocks, 0, start)\<close>.
\<close>

definition blocks_iter :: "memory_blockchain \<Rightarrow> int option \<Rightarrow> int option \<Rightarrow> error + block list" where
  "blocks_iter bc offset limit =
     (if offset \<noteq> None \<or> limit \<noteq> None then
        let start = (case offset of None \<Rightarrow> 0 | Some k \<Rightarrow> k) in
        case limit of
          None \<Rightarrow> islice (blocks bc) 0 start
        | Some l \<Rightarrow> islice (blocks bc) start (start + l)
      else Inr (blocks bc))"

text \<open>
  The loop \<open>for block in blocks_iter: block.validate(self)\<close>. \<open>Block.validate\<close> is outside
  the modelled files and is the parameter \<open>validate_block\<close>. The result is the list of the
  blocks handed to it, in order, and the exception that ended the loop, if one did.
\<close>

fun validate_each :: "(block \<Rightarrow> error + unit) \<Rightarrow> block list \<Rightarrow> block list \<times> error option" where
  "validate_each validate_block [] = ([], None)"
| "validate_each validate_block (b # bs) =
     (case validate_block b of
        Inl e \<Rightarrow> ([b], Some e)
      | Inr _ \<Rightarrow> (case validate_each validate_block bs of (seen, r) \<Rightarrow> (b # seen, r)))"

text \<open>
  \<open>validate_blocks\<close> and \<open>validate\<close> always end by an exception (the last statement of
  \<open>validate_blocks\<close> raises \<open>NotImplementedError\<close>): the result is the blocks delegated to
  per-block validation and the exception raised.
\<close>

definition validate_blocks ::
  "(memory_blockchain \<Rightarrow> block \<Rightarrow> error + unit) \<Rightarrow> memory_blockchain \<Rightarrow>
   int option \<Rightarrow> int option \<Rightarrow> block list \<times> error" where
  "validate_blocks validate_block bc offset limit =
     (case blocks_iter bc offset limit of
        Inl e \<Rightarrow> ([], e)
      | Inr bs \<Rightarrow>
          (case validate_each (validate_block bc) bs of
             (seen, Some e) \<Rightarrow> (seen, e)
           | (seen, None) \<Rightarrow> (seen, NotImplementedError)))"

definition validate ::
  "(memory_blockchain \<Rightarrow> block \<Rightarrow> error + unit) \<Rightarrow> memory_blockchain \<Rightarrow>
   int option \<Rightarrow> int option \<Rightarrow> block list \<times> error" where
  "validate validate_block bc block_offset block_limit =
     (case validate_account_root_files bc of
        Inl e \<Rightarrow> ([], e)
      | Inr _ \<Rightarrow> validate_blocks validate_block bc None None)"

section \<open>BlockMessage: validation\<close>

text \<open>Sequencing of two checks: the second runs only when the first raised nothing.\<close>

definition and_then :: "error + unit \<Rightarrow> error + 'a \<Rightarrow> error + 'a" where
  "and_then r k = (case r of Inl e \<Rightarrow> Inl e | Inr _ \<Rightarrow> k)"

text \<open>
  Modelled from the spec: the helpers of the \<open>validators\<close> module, which is not among the
  modelled files. Each raises a validation error naming the subject it is given and the
  requirement that failed (for an exact value, the expected and the actual value).
  \<open>validate_not_empty\<close> and \<open>validate_empty\<close> take the truth value of the checked object.
  \<open>validate_type\<close> takes whether the object is an instance of the type.
\<close>

definition validate_not_empty :: "string \<Rightarrow> bool \<Rightarrow> error + unit" where
  "validate_not_empty subject truth =
     (if \<not> truth then Inl (ValidatorError subject MustBeNotEmpty) else Inr ())"

definition validate_empty :: "string \<Rightarrow> bool \<Rightarrow> error + unit" where
  "validate_empty subject truth =
     (if truth then Inl (ValidatorError subject MustBeEmpty) else Inr ())"

definition validate_type :: "string \<Rightarrow> bool \<Rightarrow> error + unit" where
  "validate_type subject is_instance =
     (if \<not> is_instance then Inl (ValidatorError subject MustHaveType) else Inr ())"

definition validate_min_item_count :: "string \<Rightarrow> nat \<Rightarrow> nat \<Rightarrow> error + unit" where
  "validate_min_item_count subject count min_count =
     (if count < min_count then Inl (ValidatorError subject (MinItemCount min_count)) else Inr ())"

definition validate_greater_than_zero :: "string \<Rightarrow> int \<Rightarrow> error + unit" where
  "validate_greater_than_zero subject v =
     (if v \<le> 0 then Inl (ValidatorError subject MustBeGreaterThanZero) else Inr ())"

definition validate_exact_value :: "string \<Rightarrow> pyval \<Rightarrow> pyval \<Rightarrow> error + unit" where
  "validate_exact_value subject v expected =
     (if v \<noteq> expected then Inl (ValidatorError subject (MustBeEqual expected v)) else Inr ())"

text \<open>
  Modelled from the spec: \<open>make_balance_lock\<close> (module \<open>coin_transfer\<close>, not among the
  modelled files), the deterministic rotation of the lock: a function of the signed
  request's content, here its hash.
\<close>

definition make_balance_lock :: "signed_change_request \<Rightarrow> string" where
  "make_balance_lock r = request_hash r"

text \<open>
  \<open>humanized_class_name_lowered\<close> comes from the base dataclass; for \<open>BlockMessage\<close>
  it reads as follows.
\<close>

definition humanized_class_name_lowered :: string where
  "humanized_class_name_lowered = ''block message''"

definition lock_value :: "string option \<Rightarrow> pyval" where
  "lock_value l = (case l of None \<Rightarrow> PNone | Some s \<Rightarrow> PStr s)"

definition get_sent_amount :: "block_message \<Rightarrow> int" where
  "get_sent_amount m = sent_amount (signed_change_request m)"

definition get_recipient_amount :: "block_message \<Rightarrow> string \<Rightarrow> int" where
  "get_recipient_amount m recipient = recipient_amount (signed_change_request m) recipient"

definition account_subject :: "bool \<Rightarrow> string \<Rightarrow> string" where
  "account_subject is_sender account_number =
     humanized_class_name_lowered @ '' '' @ (if is_sender then ''sender'' else ''recipient'')
       @ '' account '' @ account_number"

definition validate_updated_account_balance_lock ::
  "block_message \<Rightarrow> string \<Rightarrow> account_state \<Rightarrow> bool \<Rightarrow> error + unit" where
  "validate_updated_account_balance_lock m account_number st is_sender =
     (let subject = account_subject is_sender account_number @ '' balance_lock'';
          lck = balance_lock st
      in
        if is_sender then
          and_then (validate_not_empty subject (lock_is_set lck))
         (and_then (validate_type subject True)
                   (validate_exact_value subject (lock_value lck)
                      (PStr (make_balance_lock (signed_change_request m)))))
        else validate_empty subject (lock_is_set lck))"

definition validate_updated_account_balance ::
  "memory_blockchain \<Rightarrow> block_message \<Rightarrow> string \<Rightarrow> account_state \<Rightarrow> bool \<Rightarrow> error + unit" where
  "validate_updated_account_balance bc m account_number st is_sender =
     (let subject = account_subject is_sender account_number in
      case get_account_balance bc account_number (Some (block_number m - 1)) of
        Inl e \<Rightarrow> Inl e
      | Inr bal \<Rightarrow>
          if is_sender then
            and_then
              (validate_greater_than_zero
                 (''sender account '' @ account_number @ '' current balance'') bal)
              (validate_exact_value (subject @ '' balance'') (PInt (balance st))
                 (PInt (bal - get_sent_amount m)))
          else
            validate_exact_value (subject @ '' balance'') (PInt (balance st))
              (PInt (bal + get_recipient_amount m account_number)))"

text \<open>
  \<open>account_state.validate()\<close>: the check of \<open>account_balance.py\<close>
  (\<open>BlockAccountBalance.validate\<close>, without the lock) is that the value is an integer,
  which every \<open>account_state\<close> of this model is.
\<close>

definition account_state_validate :: "account_state \<Rightarrow> error + unit" where
  "account_state_validate st = Inr ()"

text \<open>
  The loop over \<open>updated_account_states.items()\<close> of \<open>validate_updated_account_states\<close>,
  with \<open>is_sender = account_number == signer\<close>.
\<close>

fun validate_account_entries ::
  "memory_blockchain \<Rightarrow> block_message \<Rightarrow> string \<Rightarrow> (string \<times> account_state) list \<Rightarrow> error + unit" where
  "validate_account_entries bc m sender [] = Inr ()"
| "validate_account_entries bc m sender ((account_number, st) # rest) =
     (let subject = humanized_class_name_lowered @ '' updated_account_states key (account number)'';
          is_sender = (account_number = sender)
      in
        and_then (validate_not_empty subject (account_number \<noteq> []))
       (and_then (validate_type subject True)
       (and_then (account_state_validate st)
       (and_then (validate_updated_account_balance_lock m account_number st is_sender)
       (and_then (validate_updated_account_balance bc m account_number st is_sender)
                 (validate_account_entries bc m sender rest))))))"

definition validate_updated_account_states :: "memory_blockchain \<Rightarrow> block_message \<Rightarrow> error + unit" where
  "validate_updated_account_states bc m =
     (let states = updated_account_states m;
          humanized_class_name = humanized_class_name_lowered
      in
        and_then (validate_not_empty (humanized_class_name @ '' updated_account_states'') (states \<noteq> []))
          (if is_coin_transfer (signed_change_request m) then
             let sender = signer (signed_change_request m);
                 sender_account_state = map_of states sender
             in
               and_then (validate_min_item_count (humanized_class_name @ '' updated_account_states'')
                           (length states) 2)
              (and_then (validate_not_empty
                           (humanized_class_name @ '' updated_account_states.'' @ sender)
                           (sender_account_state \<noteq> None))
                        (validate_account_entries bc m sender states))
           else Inr ()))"

text \<open>
  \<open>timestamp <= min_timestamp\<close> for a naive \<open>timestamp\<close>: Python compares two naive
  datetimes and raises \<open>TypeError\<close> against anything else.
\<close>

definition timestamp_le :: "int \<Rightarrow> py_timestamp \<Rightarrow> error + bool" where
  "timestamp_le t m = (case m of TsDatetime u None \<Rightarrow> Inr (t \<le> u) | _ \<Rightarrow> Inl TypeError)"

definition check_min_timestamp :: "int \<Rightarrow> py_timestamp \<Rightarrow> error + unit" where
  "check_min_timestamp t min_timestamp =
     (case timestamp_le t min_timestamp of
        Inl e \<Rightarrow> Inl e
      | Inr le \<Rightarrow>
          if le then Inl (ValidationError ''Block message timestamp must be greater than from previous block'')
          else Inr ())"

definition validate_timestamp :: "memory_blockchain \<Rightarrow> block_message \<Rightarrow> error + unit" where
  "validate_timestamp bc m =
     (case timestamp m of
        TsNone \<Rightarrow> Inl (ValidationError ''Block message timestamp must be set'')
      | TsNotDatetime \<Rightarrow> Inl (ValidationError ''Block message timestamp must be datetime type'')
      | TsDatetime t tzinfo \<Rightarrow>
          if tzinfo \<noteq> None
          then Inl (ValidationError ''Block message timestamp must be naive datetime (UTC timezone implied)'')
          else
            let bn = block_number m in
            if bn > 0 then
              let prev_block_number = bn - 1 in
              case get_block_by_number bc prev_block_number of
                Inl e \<Rightarrow> Inl e
              | Inr None \<Rightarrow>
                  (case get_closest_blockchain_state_snapshot bc bn of
                     None \<Rightarrow> Inl (ValidationError ''Unexpected could not find base account root file'')
                   | Some account_root_file \<Rightarrow>
                       if is_initial account_root_file
                       then Inl (ValidationError ''Unexpected initial account root file found'')
                       else if last_block_number account_root_file \<noteq> Some prev_block_number
                       then Inl (ValidationError ''Base account root file block number mismatch'')
                       else
                         (case last_block_timestamp account_root_file of
                            None \<Rightarrow> Inl AssertionError
                          | Some min_timestamp \<Rightarrow>
                              check_min_timestamp t (TsDatetime min_timestamp None)))
              | Inr (Some prev_block) \<Rightarrow>
                  check_min_timestamp t (timestamp (message prev_block))
            else Inr ())"

text \<open>
  The reference point of the timestamp rule, in the specification's words: the timestamp
  of block \<open>N-1\<close> if the store has it, otherwise the last block timestamp of the closest
  snapshot, which has to cover block \<open>N-1\<close> exactly.
\<close>

definition timestamp_reference_spec :: "memory_blockchain \<Rightarrow> int \<Rightarrow> py_timestamp option" where
  "timestamp_reference_spec bc n =
     (case get_block_by_number bc (n - 1) of
        Inr (Some prev_block) \<Rightarrow> Some (timestamp (message prev_block))
      | Inr None \<Rightarrow>
          (case get_closest_blockchain_state_snapshot bc n of
             None \<Rightarrow> None
           | Some a \<Rightarrow>
               if last_block_number a = Some (n - 1)
               then map_option (\<lambda>u. TsDatetime u None) (last_block_timestamp a)
               else None)
      | Inl e \<Rightarrow> None)"

section \<open>The resolution rule in the specification's words\<close>

text \<open>
  The scan window: the stored blocks, newest first, from the target point (the head when
  no target is given) down to, but excluding, the snapshot's last block number.
\<close>

definition in_window :: "int option \<Rightarrow> account_root_file \<Rightarrow> block \<Rightarrow> bool" where
  "in_window target arf b =
     ((case target of None \<Rightarrow> True | Some t \<Rightarrow> block_number (message b) \<le> t) \<and>
      (case last_block_number arf of None \<Rightarrow> True | Some a \<Rightarrow> a < block_number (message b)))"

definition scan_window_spec :: "memory_blockchain \<Rightarrow> int option \<Rightarrow> account_root_file \<Rightarrow> block list" where
  "scan_window_spec bc target arf = filter (in_window target arf) (rev (blocks bc))"

text \<open>
  The balance of the first block of a window that mentions the account, else the
  snapshot's value.
\<close>

fun resolve_balance_spec :: "string \<Rightarrow> block list \<Rightarrow> account_root_file \<Rightarrow> int" where
  "resolve_balance_spec account [] arf = get_balance_value arf account"
| "resolve_balance_spec account (b # bs) arf =
     (case map_of (updated_account_states (message b)) account of
        Some st \<Rightarrow> balance st
      | None \<Rightarrow> resolve_balance_spec account bs arf)"

text \<open>
  The lock of the first block of a window whose entry for the account carries a non-empty
  lock, else the snapshot's lock.
\<close>

definition carries_lock :: "string \<Rightarrow> block \<Rightarrow> bool" where
  "carries_lock account b =
     (case map_of (updated_account_states (message b)) account of
        Some st \<Rightarrow> balance_lock st \<noteq> None \<and> balance_lock st \<noteq> Some []
      | None \<Rightarrow> False)"

definition resolve_lock_spec :: "string \<Rightarrow> block list \<Rightarrow> account_root_file \<Rightarrow> string option" where
  "resolve_lock_spec account window arf =
     (case find (carries_lock account) window of
        Some b \<Rightarrow> Option.bind (map_of (updated_account_states (message b)) account) balance_lock
      | None \<Rightarrow> get_balance_lock arf account)"

section \<open>BlockAccountBalance: serialization\<close>

text \<open>
  A Python dict with string keys. \<open>super_to_dict\<close> is the \<open>to_dict\<close> that
  \<open>dataclass_json\<close> generates: one key per field of the dataclass.
\<close>

type_synonym pydict = "string \<rightharpoonup> pyval"

definition super_to_dict :: "account_balance \<Rightarrow> pydict" where
  "super_to_dict b = [''value'' \<mapsto> PInt (value b), ''lock'' \<mapsto> lock_value (lock b)]"

definition dict_get :: "pydict \<Rightarrow> string \<Rightarrow> pyval \<Rightarrow> pyval" where
  "dict_get d k dflt = (case d k of None \<Rightarrow> dflt | Some v \<Rightarrow> v)"

definition override_to_dict :: "account_balance \<Rightarrow> pydict" where
  "override_to_dict b =
     (let dct = super_to_dict b;
          v = dict_get dct ''lock'' PSentinel
      in if v = PNone then dct(''lock'' := None) else dct)"

text \<open>
  \<open>from_dict\<close> as \<open>dataclass_json\<close> generates it for \<open>BlockAccountBalance\<close>: \<open>value\<close>
  is required, and \<open>lock\<close>, declared \<open>Optional[str] = None\<close>, takes its default when the
  key is missing. \<open>None\<close> stands for a dict that does not decode.
\<close>

definition from_dict :: "pydict \<Rightarrow> account_balance option" where
  "from_dict d =
     (case d ''value'' of
        Some (PInt v) \<Rightarrow>
          (case d ''lock'' of
             None \<Rightarrow> Some \<lparr>value = v, lock = None\<rparr>
           | Some PNone \<Rightarrow> Some \<lparr>value = v, lock = None\<rparr>
           | Some (PStr l) \<Rightarrow> Some \<lparr>value = v, lock = Some l\<rparr>
           | Some _ \<Rightarrow> None)
      | _ \<Rightarrow> None)"

section \<open>The block store with object identity\<close>

text \<open>
  Python lists hold references, and a \<open>Block\<close> holds a reference to its
  \<open>BlockMessage\<close>, which holds references to its signed change request and to the dict
  of its updated account states, whose values are references to account state objects.
  To tell a stored object from a copy of it, and a deep copy from a shallow one, every
  such object is a cell of a heap (a list of cells, an address being a position); strings,
  integers and datetimes are immutable values inside the cells. An assignment to an
  attribute or to a dict entry of an object replaces the object's cell.
\<close>

type_synonym addr = nat

datatype pyobject =
    BlockObject addr
  | MessageObject string addr py_timestamp int string addr
  | RequestObject signed_change_request
  | DictObject "(string \<times> addr) list"
  | StateObject account_state

type_synonym heap = "pyobject list"

definition cell :: "heap \<Rightarrow> addr \<Rightarrow> pyobject option" where
  "cell h a = (if a < length h then Some (h ! a) else None)"

text \<open>
  Reading the content reachable from an address as a value; \<open>None\<close> when the address
  does not hold an object of the class, or a reference inside it does not.
\<close>

definition read_state :: "heap \<Rightarrow> addr \<Rightarrow> account_state option" where
  "read_state h a = (case cell h a of Some (StateObject st) \<Rightarrow> Some st | _ \<Rightarrow> None)"

fun read_entries :: "heap \<Rightarrow> (string \<times> addr) list \<Rightarrow> (string \<times> account_state) list option" where
  "read_entries h [] = Some []"
| "read_entries h ((k, a) # es) =
     (case read_state h a of
        None \<Rightarrow> None
      | Some st \<Rightarrow>
          (case read_entries h es of None \<Rightarrow> None | Some sts \<Rightarrow> Some ((k, st) # sts)))"

definition read_dict :: "heap \<Rightarrow> addr \<Rightarrow> (string \<times> account_state) list option" where
  "read_dict h a = (case cell h a of Some (DictObject es) \<Rightarrow> read_entries h es | _ \<Rightarrow> None)"

definition read_request :: "heap \<Rightarrow> addr \<Rightarrow> signed_change_request option" where
  "read_request h a = (case cell h a of Some (RequestObject r) \<Rightarrow> Some r | _ \<Rightarrow> None)"

definition read_message :: "heap \<Rightarrow> addr \<Rightarrow> block_message option" where
  "read_message h a =
     (case cell h a of
        Some (MessageObject bt r ts n bi d) \<Rightarrow>
          (case read_request h r of
             None \<Rightarrow> None
           | Some rq \<Rightarrow>
               (case read_dict h d of
                  None \<Rightarrow> None
                | Some sts \<Rightarrow>
                    Some \<lparr>block_type = bt, signed_change_request = rq, timestamp = ts,
                          block_number = n, block_identifier = bi,
                          updated_account_states = sts\<rparr>))
      | _ \<Rightarrow> None)"

definition read_block :: "heap \<Rightarrow> addr \<Rightarrow> block option" where
  "read_block h a =
     (case cell h a of
        Some (BlockObject m) \<Rightarrow>
          (case read_message h m of None \<Rightarrow> None | Some msg \<Rightarrow> Some \<lparr>message = msg\<rparr>)
      | _ \<Rightarrow> None)"

text \<open>
  Building a new object graph for a value: every object of it, nested ones included, gets
  a new cell at the end of the heap.
\<close>

definition alloc :: "heap \<Rightarrow> pyobject \<Rightarrow> heap \<times> addr" where
  "alloc h obj = (h @ [obj], length h)"

fun alloc_entries ::
  "heap \<Rightarrow> (string \<times> account_state) list \<Rightarrow> heap \<times> (string \<times> addr) list" where
  "alloc_entries h [] = (h, [])"
| "alloc_entries h ((k, st) # sts) =
     (case alloc h (StateObject st) of
        (h1, c) \<Rightarrow> (case alloc_entries h1 sts of (h2, cs) \<Rightarrow> (h2, (k, c) # cs)))"

definition alloc_dict :: "heap \<Rightarrow> (string \<times> account_state) list \<Rightarrow> heap \<times> addr" where
  "alloc_dict h sts = (case alloc_entries h sts of (h1, cs) \<Rightarrow> alloc h1 (DictObject cs))"

definition alloc_message :: "heap \<Rightarrow> block_message \<Rightarrow> heap \<times> addr" where
  "alloc_message h m =
     (case alloc h (RequestObject (signed_change_request m)) of
        (h1, r) \<Rightarrow>
          (case alloc_dict h1 (updated_account_states m) of
             (h2, d) \<Rightarrow>
               alloc h2 (MessageObject (block_type m) r (timestamp m) (block_number m)
                           (block_identifier m) d)))"

definition alloc_block :: "heap \<Rightarrow> block \<Rightarrow> heap \<times> addr" where
  "alloc_block h b = (case alloc_message h (message b) of (h1, m) \<Rightarrow> alloc h1 (BlockObject m))"

text \<open>
  \<open>copy.deepcopy(block)\<close> for the block object at address \<open>a\<close>: a new object graph
  with the content read from \<open>a\<close>. (A shallow copy would be
  \<open>alloc h (BlockObject m)\<close> for the message reference \<open>m\<close> of the block, sharing the
  message.) \<open>None\<close> when \<open>a\<close> is not the address of a block.
\<close>

definition deepcopy :: "heap \<Rightarrow> addr \<Rightarrow> (heap \<times> addr) option" where
  "deepcopy h a = (case read_block h a of None \<Rightarrow> None | Some b \<Rightarrow> Some (alloc_block h b))"

text \<open>
  The store: its snapshots and the list of the references to its blocks.
  \<open>persist_block\<close> is \<open>self.blocks.append(copy.deepcopy(block))\<close>.
\<close>

record memory_blockchain_refs =
  account_root_files_of :: "account_root_file list"
  block_refs :: "addr list"

definition persist_block_ref ::
  "heap \<Rightarrow> memory_blockchain_refs \<Rightarrow> addr \<Rightarrow> (heap \<times> memory_blockchain_refs) option" where
  "persist_block_ref h s a =
     (case deepcopy h a of
        None \<Rightarrow> None
      | Some (h', c) \<Rightarrow> Some (h', s\<lparr>block_refs := block_refs s @ [c]\<rparr>))"

text \<open>
  \<open>.message.block_number\<close> of the object at an address, and \<open>get_block_by_number\<close> on
  the list of references: the body is \<open>lookup_by_number\<close>, and the result is the element
  of the list, a reference. On a store that holds a reference to anything but a block,
  reading the attribute raises \<open>AttributeError\<close>.
\<close>

definition block_number_at :: "heap \<Rightarrow> addr \<Rightarrow> int option" where
  "block_number_at h a = map_option (\<lambda>b. block_number (message b)) (read_block h a)"

definition get_block_by_number_ref ::
  "heap \<Rightarrow> memory_blockchain_refs \<Rightarrow> int \<Rightarrow> error + addr option" where
  "get_block_by_number_ref h s n =
     (if list_all (\<lambda>a. block_number_at h a \<noteq> None) (block_refs s)
      then lookup_by_number (\<lambda>a. case block_number_at h a of Some k \<Rightarrow> k | None \<Rightarrow> 0)
             (block_refs s) n
      else Inl AttributeError)"

text \<open>An assignment inside the object at address \<open>a\<close>: the cell gets the new content.\<close>

definition mutate :: "heap \<Rightarrow> addr \<Rightarrow> pyobject \<Rightarrow> heap" where
  "mutate h a obj = h[a := obj]"

text \<open>The stored blocks as values, every reference followed.\<close>

definition stored_blocks :: "heap \<Rightarrow> memory_blockchain_refs \<Rightarrow> block option list" where
  "stored_blocks h s = map (read_block h) (block_refs s)"

section \<open>Example chains\<close>

text \<open>
  The specification's scenario: the initial snapshot gives account A the value 100 and the
  lock L0; block 0 transfers 30 from A to B and rotates A's lock to T1. Two more blocks
  follow (B sends 10 to C; A sends 20 to B), and a second snapshot records the state after
  block 0, for a chain whose earliest blocks are pruned.
\<close>

definition transfer :: "string \<Rightarrow> string \<Rightarrow> int \<Rightarrow> string \<Rightarrow> signed_change_request" where
  "transfer from_account to_account amount h =
     \<lparr>signer = from_account, is_coin_transfer = True, sent_amount = amount,
      recipient_amount = (\<lambda>a. if a = to_account then amount else 0), request_hash = h\<rparr>"

definition example_block ::
  "int \<Rightarrow> int \<Rightarrow> signed_change_request \<Rightarrow> (string \<times> account_state) list \<Rightarrow> block" where
  "example_block n t r states =
     \<lparr>message = \<lparr>block_type = ''ct'', signed_change_request = r, timestamp = TsDatetime t None,
        block_number = n, block_identifier = ''id'', updated_account_states = states\<rparr>\<rparr>"

definition block_0 :: block where
  "block_0 = example_block 0 1000 (transfer ''A'' ''B'' 30 ''T1'')
     [(''A'', \<lparr>balance = 70, balance_lock = Some ''T1''\<rparr>),
      (''B'', \<lparr>balance = 30, balance_lock = None\<rparr>)]"

definition block_1 :: block where
  "block_1 = example_block 1 2000 (transfer ''B'' ''C'' 10 ''T2'')
     [(''B'', \<lparr>balance = 20, balance_lock = Some ''T2''\<rparr>),
      (''C'', \<lparr>balance = 10, balance_lock = None\<rparr>)]"

definition block_2 :: block where
  "block_2 = example_block 2 3000 (transfer ''A'' ''B'' 20 ''T3'')
     [(''A'', \<lparr>balance = 50, balance_lock = Some ''T3''\<rparr>),
      (''B'', \<lparr>balance = 40, balance_lock = None\<rparr>)]"

definition genesis :: account_root_file where
  "genesis =
     \<lparr>accounts = [(''A'', \<lparr>value = 100, lock = Some ''L0''\<rparr>)],
      last_block_number = None, last_block_timestamp = None\<rparr>"

definition snapshot_0 :: account_root_file where
  "snapshot_0 =
     \<lparr>accounts = [(''A'', \<lparr>value = 70, lock = Some ''T1''\<rparr>), (''B'', \<lparr>value = 30, lock = None\<rparr>)],
      last_block_number = Some 0, last_block_timestamp = Some 1000\<rparr>"

definition empty_chain :: memory_blockchain where
  "empty_chain = \<lparr>account_root_files = [genesis], blocks = []\<rparr>"

definition full_chain :: memory_blockchain where
  "full_chain = \<lparr>account_root_files = [genesis], blocks = [block_0, block_1, block_2]\<rparr>"

definition pruned_chain :: memory_blockchain where
  "pruned_chain = \<lparr>account_root_files = [snapshot_0], blocks = [block_1, block_2]\<rparr>"

definition empty_store :: memory_blockchain_refs where
  "empty_store = \<lparr>account_root_files_of = [genesis], block_refs = []\<rparr>"

text \<open>
  The caller's block object for block 0, built in an empty heap: the request at address 0,
  the account states at 1 and 2, their dict at 3, the message at 4 and the block at 5.
  The same for a block whose block number is \<open>-1\<close>.
\<close>

definition caller_heap :: heap where
  "caller_heap = fst (alloc_block [] block_0)"

text \<open>The heap and the store after \<open>persist_block\<close> of that object on the empty store.\<close>

definition appended_heap :: heap where
  "appended_heap = fst (alloc_block caller_heap block_0)"

definition appended_store :: memory_blockchain_refs where
  "appended_store = empty_store\<lparr>block_refs := [11]\<rparr>"

definition negative_block :: block where
  "negative_block = example_block (- 1) 1000 (transfer ''A'' ''B'' 30 ''T1'') []"

definition negative_heap :: heap where
  "negative_heap = fst (alloc_block [] negative_block)"

definition negative_appended_heap :: heap where
  "negative_appended_heap = fst (alloc_block negative_heap negative_block)"

text \<open>
  A block whose signed change request is no coin transfer, with account states that break
  the lock rule and the balance rule.
\<close>

definition other_block :: block where
  "other_block = example_block 0 1000 ((transfer ''A'' ''B'' 30 ''T1'')\<lparr>is_coin_transfer := False\<rparr>)
     [(''A'', \<lparr>balance = 999999, balance_lock = Some ''WRONG''\<rparr>),
      (''B'', \<lparr>balance = - 5, balance_lock = Some ''ALSO''\<rparr>)]"

section \<open>Properties of the block store\<close>

lemma sequential_Cons_nth:
  "sequential (x # xs) \<Longrightarrow> i \<le> length xs \<Longrightarrow> (x # xs) ! i = x + int i"
proof (induction xs arbitrary: x i)
  case Nil
  then show ?case by simp
next
  case (Cons y ys)
  from Cons.prems(1) have y: "y = x + 1" and tl: "sequential (y # ys)"
    unfolding sequential.simps by blast+
  show ?case
  proof (cases i)
    case 0
    then show ?thesis by simp
  next
    case (Suc j)
    with Cons.prems have "j \<le> length ys" by simp
    from Cons.IH [OF tl this] have "(y # ys) ! j = y + int j" .
    with Suc y show ?thesis by simp
  qed
qed

lemma sequential_nth:
  "sequential xs \<Longrightarrow> i < length xs \<Longrightarrow> xs ! i = hd xs + int i"
  using sequential_Cons_nth [of "hd xs" "tl xs" i]
  by (cases xs) simp_all

lemma sequential_last:
  "sequential xs \<Longrightarrow> xs \<noteq> [] \<Longrightarrow> last xs = hd xs + int (length xs) - 1"
proof -
  assume seq: "sequential xs" and ne: "xs \<noteq> []"
  from ne have lt: "length xs - 1 < length xs" by simp
  from ne have "last xs = xs ! (length xs - 1)" by (rule last_conv_nth)
  also from sequential_nth [OF seq lt] have "\<dots> = hd xs + int (length xs - 1)" .
  also from ne have "int (length xs - 1) = int (length xs) - 1"
    by (cases xs) simp_all
  finally show ?thesis by simp
qed

lemma py_index_neg:
  "i < 0 \<Longrightarrow> - int (length xs) \<le> i \<Longrightarrow> py_index xs i = Some (xs ! nat (int (length xs) + i))"
  by (simp add: py_index_def)

lemma py_index_neg_out:
  "i < - int (length xs) \<Longrightarrow> py_index xs i = None"
  by (simp add: py_index_def)

lemma lookup_sequential_hit:
  assumes seq: "sequential (map num bs)" and ne: "bs \<noteq> []"
    and lo: "num (hd bs) \<le> n" and hi: "n \<le> num (last bs)" and nn: "0 \<le> n"
  shows "lookup_by_number num bs n = Inr (Some (bs ! nat (n - num (hd bs)))) \<and>
         nat (n - num (hd bs)) < length bs \<and> num (bs ! nat (n - num (hd bs))) = n"
proof -
  from ne have mne: "map num bs \<noteq> []" by simp
  from sequential_last [OF seq mne] ne
  have last_eq: "num (last bs) = num (hd bs) + int (length bs) - 1"
    by (simp add: last_map hd_map)
  let ?k = "nat (n - num (hd bs))"
  from lo hi last_eq have k: "?k < length bs" by simp
  from sequential_nth [OF seq, of ?k] k ne have "num (bs ! ?k) = num (hd bs) + int ?k"
    by (simp add: hd_map)
  with lo have numk: "num (bs ! ?k) = n" by simp
  let ?i = "n - num (last bs) - 1"
  from hi have neg: "?i < 0" by simp
  from lo last_eq have ge: "- int (length bs) \<le> ?i" by simp
  from lo last_eq have "nat (int (length bs) + ?i) = ?k" by simp
  with py_index_neg [OF neg ge] have "py_index bs ?i = Some (bs ! ?k)" by simp
  with ne hi nn have "lookup_by_number num bs n = Inr (Some (bs ! ?k))"
    by (simp add: lookup_by_number_def Let_def)
  with k numk show ?thesis by simp
qed

lemma lookup_sequential_gap:
  assumes seq: "sequential (map num bs)" and ne: "bs \<noteq> []"
    and lo: "n < num (hd bs)" and nn: "0 \<le> n"
  shows "lookup_by_number num bs n = Inl MissingEarlierBlocksError"
proof -
  from ne have mne: "map num bs \<noteq> []" by simp
  from sequential_last [OF seq mne] ne
  have last_eq: "num (last bs) = num (hd bs) + int (length bs) - 1"
    by (simp add: last_map hd_map)
  from ne have "0 < length bs" by simp
  with lo last_eq have hi: "\<not> n > num (last bs)" by simp
  from lo last_eq have "n - num (last bs) - 1 < - int (length bs)" by simp
  then have "py_index bs (n - num (last bs) - 1) = None" by (rule py_index_neg_out)
  with ne hi nn lo show ?thesis
    by (simp add: lookup_by_number_def Let_def)
qed

lemmas example_defs =
  transfer_def example_block_def block_0_def block_1_def block_2_def genesis_def snapshot_0_def
  empty_chain_def full_chain_def pruned_chain_def

text \<open>
  Claim C5. Block-by-number lookup: a negative number is a caller error
  (\<open>ValueError\<close>); on an empty store every \<open>n \<ge> 0\<close> gives none; a number above the
  head's gives none; on a store with sequential block numbers, a number below the earliest
  retained block's raises \<open>MissingEarlierBlocksError\<close>, and any other number gives the
  stored block with that block number.
\<close>

theorem get_block_by_number_cases:
  "(n < 0 \<longrightarrow>
      get_block_by_number bc n = Inl (ValueError ''block_number must be greater or equal to 0'')) \<and>
   (0 \<le> n \<and> blocks bc = [] \<longrightarrow> get_block_by_number bc n = Inr None) \<and>
   (0 \<le> n \<and> blocks bc \<noteq> [] \<and> block_number (message (last (blocks bc))) < n \<longrightarrow>
      get_block_by_number bc n = Inr None) \<and>
   (0 \<le> n \<and> blocks bc \<noteq> [] \<and> sequential (block_numbers bc) \<and>
    n < block_number (message (hd (blocks bc))) \<longrightarrow>
      get_block_by_number bc n = Inl MissingEarlierBlocksError) \<and>
   (0 \<le> n \<and> blocks bc \<noteq> [] \<and> sequential (block_numbers bc) \<and>
    block_number (message (hd (blocks bc))) \<le> n \<and> n \<le> block_number (message (last (blocks bc))) \<longrightarrow>
      (\<exists>b \<in> set (blocks bc).
         get_block_by_number bc n = Inr (Some b) \<and> block_number (message b) = n))"
proof (intro conjI impI)
  assume "n < 0"
  then show "get_block_by_number bc n = Inl (ValueError ''block_number must be greater or equal to 0'')"
    by (simp add: get_block_by_number_def lookup_by_number_def)
next
  assume "0 \<le> n \<and> blocks bc = []"
  then show "get_block_by_number bc n = Inr None"
    by (simp add: get_block_by_number_def lookup_by_number_def)
next
  assume "0 \<le> n \<and> blocks bc \<noteq> [] \<and> block_number (message (last (blocks bc))) < n"
  then show "get_block_by_number bc n = Inr None"
    by (simp add: get_block_by_number_def lookup_by_number_def)
next
  assume "0 \<le> n \<and> blocks bc \<noteq> [] \<and> sequential (block_numbers bc) \<and>
    n < block_number (message (hd (blocks bc)))"
  then show "get_block_by_number bc n = Inl MissingEarlierBlocksError"
    unfolding get_block_by_number_def block_numbers_def
    by (intro lookup_sequential_gap) simp_all
next
  let ?num = "\<lambda>b. block_number (message b)"
  assume a: "0 \<le> n \<and> blocks bc \<noteq> [] \<and> sequential (block_numbers bc) \<and>
    block_number (message (hd (blocks bc))) \<le> n \<and> n \<le> block_number (message (last (blocks bc)))"
  then have "lookup_by_number ?num (blocks bc) n
               = Inr (Some (blocks bc ! nat (n - ?num (hd (blocks bc))))) \<and>
             nat (n - ?num (hd (blocks bc))) < length (blocks bc) \<and>
             ?num (blocks bc ! nat (n - ?num (hd (blocks bc)))) = n"
    unfolding block_numbers_def
    by (intro lookup_sequential_hit) simp_all
  then show "\<exists>b \<in> set (blocks bc).
         get_block_by_number bc n = Inr (Some b) \<and> block_number (message b) = n"
    unfolding get_block_by_number_def
    by (intro bexI [of _ "blocks bc ! nat (n - ?num (hd (blocks bc)))"]) simp_all
qed

theorem get_block_by_number_cases_witness:
  "get_block_by_number full_chain (- 1)
     = Inl (ValueError ''block_number must be greater or equal to 0'') \<and>
   get_block_by_number empty_chain 0 = Inr None \<and>
   get_block_by_number full_chain 3 = Inr None \<and>
   get_block_by_number pruned_chain 0 = Inl MissingEarlierBlocksError \<and>
   (\<exists>b \<in> set (blocks full_chain).
      get_block_by_number full_chain 1 = Inr (Some b) \<and> block_number (message b) = 1)"
proof (intro conjI)
  show "get_block_by_number full_chain (- 1)
     = Inl (ValueError ''block_number must be greater or equal to 0'')"
    using get_block_by_number_cases [of "- 1" full_chain] by simp
  show "get_block_by_number empty_chain 0 = Inr None"
    using get_block_by_number_cases [of 0 empty_chain] by (simp add: empty_chain_def)
  show "get_block_by_number full_chain 3 = Inr None"
    using get_block_by_number_cases [of 3 full_chain] by (simp add: example_defs)
  show "get_block_by_number pruned_chain 0 = Inl MissingEarlierBlocksError"
    using get_block_by_number_cases [of 0 pruned_chain]
    by (simp add: example_defs block_numbers_def)
  show "\<exists>b \<in> set (blocks full_chain).
      get_block_by_number full_chain 1 = Inr (Some b) \<and> block_number (message b) = 1"
    using get_block_by_number_cases [of 1 full_chain]
    by (simp add: example_defs block_numbers_def)
qed

section \<open>Properties of balance and lock resolution\<close>

lemma sequential_append:
  "sequential (xs @ [x]) = (sequential xs \<and> (xs \<noteq> [] \<longrightarrow> x = last xs + 1))"
proof (induction xs rule: sequential.induct)
  case 1
  show ?case by simp
next
  case (2 y)
  show ?case by simp
next
  case (3 y z zs)
  then show ?case by simp
qed

lemma descending_rev:
  "sequential (map g bs) \<Longrightarrow> bs \<noteq> [] \<Longrightarrow> descending g (g (last bs)) (rev bs)"
proof (induction bs rule: rev_induct)
  case Nil
  then show ?case by simp
next
  case (snoc b bs)
  show ?case
  proof (cases "bs = []")
    case True
    then show ?thesis by simp
  next
    case False
    with snoc.prems have seq: "sequential (map g bs)" and step: "g b = g (last bs) + 1"
      by (simp_all add: sequential_append last_map)
    from snoc.IH [OF seq False] step show ?thesis by simp
  qed
qed

lemma filter_above_descending:
  "descending g h ys \<Longrightarrow> filter (\<lambda>y. a < g y) ys = take (nat (h - a)) ys"
proof (induction ys arbitrary: h)
  case Nil
  then show ?case by simp
next
  case (Cons y ys)
  then have gy: "g y = h" and rest: "descending g (h - 1) ys" by simp_all
  from Cons.IH [OF rest] have ih: "filter (\<lambda>y. a < g y) ys = take (nat (h - 1 - a)) ys" .
  show ?case
  proof (cases "a < h")
    case True
    then have "nat (h - a) = Suc (nat (h - 1 - a))" by simp
    with True gy ih show ?thesis by simp
  next
    case False
    with gy ih show ?thesis by simp
  qed
qed

lemma filter_upto_descending:
  "descending g h ys \<Longrightarrow> filter (\<lambda>y. g y \<le> t) ys = drop (nat (h - t)) ys"
proof (induction ys arbitrary: h)
  case Nil
  then show ?case by simp
next
  case (Cons y ys)
  then have gy: "g y = h" and rest: "descending g (h - 1) ys" by simp_all
  from Cons.IH [OF rest] have ih: "filter (\<lambda>y. g y \<le> t) ys = drop (nat (h - 1 - t)) ys" .
  show ?case
  proof (cases "h \<le> t")
    case True
    with gy ih show ?thesis by simp
  next
    case False
    then have "nat (h - t) = Suc (nat (h - 1 - t))" by simp
    with False gy ih show ?thesis by simp
  qed
qed

lemma descending_drop:
  "descending g h ys \<Longrightarrow> descending g (h - int k) (drop k ys)"
proof (induction ys arbitrary: h k)
  case Nil
  then show ?case by simp
next
  case (Cons y ys)
  show ?case
  proof (cases k)
    case 0
    with Cons.prems show ?thesis by simp
  next
    case (Suc j)
    from Cons.prems have "descending g (h - 1) ys" by simp
    from Cons.IH [OF this, of j] Suc show ?thesis by (simp add: algebra_simps)
  qed
qed

lemma filter_between_descending:
  assumes d: "descending g h ys" and th: "t \<le> h"
  shows "filter (\<lambda>y. g y \<le> t \<and> a < g y) ys = take (nat (t - a)) (drop (nat (h - t)) ys)"
proof -
  have "filter (\<lambda>y. g y \<le> t \<and> a < g y) ys = filter (\<lambda>y. a < g y) (filter (\<lambda>y. g y \<le> t) ys)"
    by (simp add: conj_commute)
  also have "\<dots> = filter (\<lambda>y. a < g y) (drop (nat (h - t)) ys)"
    by (simp add: filter_upto_descending [OF d])
  also from descending_drop [OF d, of "nat (h - t)"] th
  have "descending g t (drop (nat (h - t)) ys)" by simp
  then have "filter (\<lambda>y. a < g y) (drop (nat (h - t)) ys) = take (nat (t - a)) (drop (nat (h - t)) ys)"
    by (rule filter_above_descending)
  finally show ?thesis .
qed

lemma closest_covers:
  "get_closest_account_root_file bc (Some t) = Some arf \<Longrightarrow> covers_at_or_before t arf"
  by (auto simp: get_closest_account_root_file_def find_Some_iff)

lemma map_guard_all:
  "\<forall>b \<in> set bs. P b \<Longrightarrow> map (\<lambda>b. if P b then Inr b else Inl e) bs = map Inr bs"
  by (induction bs) simp_all

lemma filter_eq_all:
  "filter P xs = ys \<Longrightarrow> \<forall>b \<in> set ys. P b"
  by auto

lemma in_window_fun:
  "in_window target arf =
     (\<lambda>b. (case target of None \<Rightarrow> True | Some t \<Rightarrow> block_number (message b) \<le> t) \<and>
          (case last_block_number arf of None \<Rightarrow> True | Some a \<Rightarrow> a < block_number (message b)))"
  by (rule ext) (simp add: in_window_def)

lemma window_as_specified:
  assumes seq: "sequential (block_numbers bc)" and ne: "blocks bc \<noteq> []"
    and arf: "get_closest_account_root_file bc target = Some arf"
    and valid: "case target of
                  None \<Rightarrow> (case last_block_number arf of
                              None \<Rightarrow> True
                            | Some a \<Rightarrow> a \<le> block_number (message (last (blocks bc))))
                | Some t \<Rightarrow> 0 \<le> t \<and> t \<le> block_number (message (last (blocks bc)))"
  shows "get_blocks_until_account_root_file bc target = map Inr (scan_window_spec bc target arf)"
proof -
  let ?g = "\<lambda>b. block_number (message b)"
  let ?h = "?g (last (blocks bc))"
  let ?ys = "rev (blocks bc)"
  from seq ne have d: "descending ?g ?h ?ys"
    unfolding block_numbers_def by (rule descending_rev)
  show ?thesis
  proof (cases target)
    case None
    note tn = None
    show ?thesis
    proof (cases "last_block_number arf")
      case None
      with tn ne arf show ?thesis
        by (simp add: get_blocks_until_account_root_file_def scan_window_spec_def in_window_fun
            islice_def Let_def)
    next
      case (Some a)
      with tn valid have ah: "a \<le> ?h" by simp
      have w: "filter (\<lambda>b. a < ?g b) ?ys = take (nat (?h - a)) ?ys"
        using d by (rule filter_above_descending)
      then have all: "\<forall>b \<in> set (take (nat (?h - a)) ?ys). a < ?g b"
        by (rule filter_eq_all)
      from ah have "islice ?ys 0 (?h - a) = Inr (take (nat (?h - a)) ?ys)"
        by (simp add: islice_def)
      with tn Some ne arf have "get_blocks_until_account_root_file bc target
          = map (\<lambda>b. if a < ?g b then Inr b else Inl AssertionError) (take (nat (?h - a)) ?ys)"
        by (simp add: get_blocks_until_account_root_file_def Let_def)
      also from all have "\<dots> = map Inr (take (nat (?h - a)) ?ys)"
        by (rule map_guard_all)
      also from tn Some w have "take (nat (?h - a)) ?ys = scan_window_spec bc target arf"
        by (simp add: scan_window_spec_def in_window_fun)
      finally show ?thesis .
    qed
  next
    case (Some t)
    note ts = Some
    with valid have t0: "0 \<le> t" and th: "t \<le> ?h" by simp_all
    from arf ts have cov: "covers_at_or_before t arf" by (simp add: closest_covers)
    show ?thesis
    proof (cases "last_block_number arf")
      case None
      have w: "filter (\<lambda>b. ?g b \<le> t) ?ys = drop (nat (?h - t)) ?ys"
        using d by (rule filter_upto_descending)
      from th have "islice ?ys (?h - t) (?h - t + (int (length (blocks bc)) - (?h - t)))
          = Inr (drop (nat (?h - t)) ?ys)"
        by (simp add: islice_def)
      with ts None ne arf t0 have "get_blocks_until_account_root_file bc target
          = map Inr (drop (nat (?h - t)) ?ys)"
        by (simp add: get_blocks_until_account_root_file_def Let_def)
      with ts None w show ?thesis
        by (simp add: scan_window_spec_def in_window_fun)
    next
      case (Some a)
      with cov have at: "a \<le> t" by (simp add: covers_at_or_before_def)
      have w: "filter (\<lambda>b. ?g b \<le> t \<and> a < ?g b) ?ys = take (nat (t - a)) (drop (nat (?h - t)) ?ys)"
        using d th by (rule filter_between_descending)
      from filter_eq_all [OF w]
      have all: "\<forall>b \<in> set (take (nat (t - a)) (drop (nat (?h - t)) ?ys)). a < ?g b"
        by blast
      from at th have "nat (?h - a) - nat (?h - t) = nat (t - a)" by simp
      with at th have "islice ?ys (?h - t) (?h - t + (?h - a - (?h - t)))
          = Inr (take (nat (t - a)) (drop (nat (?h - t)) ?ys))"
        by (simp add: islice_def)
      with ts Some ne arf t0 at have "get_blocks_until_account_root_file bc target
          = map (\<lambda>b. if a < ?g b then Inr b else Inl AssertionError)
              (take (nat (t - a)) (drop (nat (?h - t)) ?ys))"
        by (simp add: get_blocks_until_account_root_file_def Let_def)
      also from all have "\<dots> = map Inr (take (nat (t - a)) (drop (nat (?h - t)) ?ys))"
        by (rule map_guard_all)
      also from ts Some w have "take (nat (t - a)) (drop (nat (?h - t)) ?ys) = scan_window_spec bc target arf"
        by (simp add: scan_window_spec_def in_window_fun)
      finally show ?thesis .
    qed
  qed
qed

lemma balance_from_window:
  "balance_from_blocks account (map Inr bs) = Inr None \<and>
     resolve_balance_spec account bs arf = get_balance_value arf account \<or>
   balance_from_blocks account (map Inr bs) = Inr (Some (resolve_balance_spec account bs arf))"
  by (induction bs) (auto simp: get_account_state_def split: option.splits)

lemma get_account_balance_of_window:
  assumes w: "get_blocks_until_account_root_file bc target = map Inr bs"
    and arf: "get_closest_account_root_file bc target = Some arf"
    and t: "case target of None \<Rightarrow> True | Some t \<Rightarrow> - 1 \<le> t"
  shows "get_account_balance bc account target = Inr (resolve_balance_spec account bs arf)"
  using balance_from_window [of account bs arf] w arf t
  by (auto simp: get_account_balance_def get_balance_from_block_def
      get_balance_from_account_root_file_def split: option.splits)

text \<open>
  Claim C2. On a store with sequential block numbers, for a valid target (none for the
  head, \<open>-1\<close> for the state before block 0, otherwise a number up to the head's), the
  resolved balance is the balance recorded by the newest block of the scan window (from the
  target down to, but excluding, the closest snapshot's last block number) that mentions
  the account, and the closest snapshot's value when no block of the window does; for
  \<open>-1\<close> no block is consulted.
\<close>

theorem get_account_balance_resolves:
  assumes seq: "sequential (block_numbers bc)"
    and arf: "get_closest_account_root_file bc target = Some arf"
    and valid: "case target of
                  None \<Rightarrow> blocks bc = [] \<or>
                    (case last_block_number arf of
                       None \<Rightarrow> True
                     | Some a \<Rightarrow> a \<le> block_number (message (last (blocks bc))))
                | Some t \<Rightarrow> - 1 \<le> t \<and>
                    (blocks bc = [] \<or> t \<le> block_number (message (last (blocks bc))))"
  shows "(target = Some (- 1) \<longrightarrow>
            get_blocks_until_account_root_file bc target = [] \<and>
            get_account_balance bc account target = Inr (get_balance_value arf account)) \<and>
         (target \<noteq> Some (- 1) \<longrightarrow>
            get_account_balance bc account target
              = Inr (resolve_balance_spec account (scan_window_spec bc target arf) arf))"
proof (intro conjI impI)
  assume m: "target = Some (- 1)"
  then show e: "get_blocks_until_account_root_file bc target = []"
    by (simp add: get_blocks_until_account_root_file_def)
  then have "get_blocks_until_account_root_file bc target = map Inr []" by simp
  from get_account_balance_of_window [OF this arf, of account] m
  show "get_account_balance bc account target = Inr (get_balance_value arf account)"
    by simp
next
  assume nm: "target \<noteq> Some (- 1)"
  from valid have t: "case target of None \<Rightarrow> True | Some t \<Rightarrow> - 1 \<le> t"
    by (simp split: option.splits)
  have "get_blocks_until_account_root_file bc target = map Inr (scan_window_spec bc target arf)"
  proof (cases "blocks bc = []")
    case True
    then show ?thesis
      by (simp add: get_blocks_until_account_root_file_def scan_window_spec_def
          split: option.splits)
  next
    case False
    with valid nm have "case target of
                  None \<Rightarrow> (case last_block_number arf of
                              None \<Rightarrow> True
                            | Some a \<Rightarrow> a \<le> block_number (message (last (blocks bc))))
                | Some t \<Rightarrow> 0 \<le> t \<and> t \<le> block_number (message (last (blocks bc)))"
      by (auto split: option.splits)
    with seq False arf show ?thesis by (rule window_as_specified)
  qed
  from get_account_balance_of_window [OF this arf t]
  show "get_account_balance bc account target
              = Inr (resolve_balance_spec account (scan_window_spec bc target arf) arf)" .
qed

lemmas resolution_eval =
  example_defs block_numbers_def get_closest_account_root_file_def get_last_account_root_file_def
  get_account_root_files_reversed_def covers_at_or_before_def scan_window_spec_def in_window_def
  get_balance_value_def

theorem get_account_balance_resolves_witness:
  "get_account_balance full_chain ''A'' (Some 1) = Inr 70 \<and>
   get_account_balance full_chain ''B'' None = Inr 40 \<and>
   get_account_balance full_chain ''C'' (Some 0) = Inr 0 \<and>
   get_account_balance pruned_chain ''A'' (Some 1) = Inr 70 \<and>
   get_blocks_until_account_root_file full_chain (Some (- 1)) = [] \<and>
   get_account_balance full_chain ''A'' (Some (- 1)) = Inr 100"
proof (intro conjI)
  show "get_account_balance full_chain ''A'' (Some 1) = Inr 70"
    using get_account_balance_resolves [of full_chain "Some 1" genesis "''A''"]
    by (simp add: resolution_eval)
  show "get_account_balance full_chain ''B'' None = Inr 40"
    using get_account_balance_resolves [of full_chain None genesis "''B''"]
    by (simp add: resolution_eval)
  show "get_account_balance full_chain ''C'' (Some 0) = Inr 0"
    using get_account_balance_resolves [of full_chain "Some 0" genesis "''C''"]
    by (simp add: resolution_eval)
  show "get_account_balance pruned_chain ''A'' (Some 1) = Inr 70"
    using get_account_balance_resolves [of pruned_chain "Some 1" snapshot_0 "''A''"]
    by (simp add: resolution_eval)
  show "get_blocks_until_account_root_file full_chain (Some (- 1)) = []"
    using get_account_balance_resolves [of full_chain "Some (- 1)" genesis "''A''"]
    by (simp add: resolution_eval)
  show "get_account_balance full_chain ''A'' (Some (- 1)) = Inr 100"
    using get_account_balance_resolves [of full_chain "Some (- 1)" genesis "''A''"]
    by (simp add: resolution_eval)
qed

lemma lock_from_window:
  "lock_from_blocks account (map Inr bs) =
     (case find (carries_lock account) bs of
        Some b \<Rightarrow> Inr (Option.bind (map_of (updated_account_states (message b)) account) balance_lock)
      | None \<Rightarrow> Inr None)"
  by (induction bs)
    (auto simp: get_account_state_def carries_lock_def lock_is_set_def split: option.splits)

lemma carries_lock_bind:
  "carries_lock account b \<Longrightarrow>
   \<exists>l. Option.bind (map_of (updated_account_states (message b)) account) balance_lock = Some l \<and> l \<noteq> []"
  by (auto simp: carries_lock_def split: option.splits)

text \<open>
  Claim C4. On a store with sequential block numbers, head-relative lock resolution returns
  the lock of the newest block of the scan window (newest first, down to, but excluding,
  the closest snapshot's last block number) whose entry for the account carries a
  non-empty lock; entries whose lock is absent (\<open>None\<close> or empty) are skipped; when no
  block carries one, the result is the closest snapshot's lock for the account.
\<close>

theorem get_account_balance_lock_resolves:
  assumes seq: "sequential (block_numbers bc)"
    and arf: "get_closest_account_root_file bc None = Some arf"
    and valid: "blocks bc = [] \<or>
                  (case last_block_number arf of
                     None \<Rightarrow> True
                   | Some a \<Rightarrow> a \<le> block_number (message (last (blocks bc))))"
  shows "get_account_balance_lock bc account
           = Inr (resolve_lock_spec account (scan_window_spec bc None arf) arf)"
proof -
  have w: "get_blocks_until_account_root_file bc None = map Inr (scan_window_spec bc None arf)"
  proof (cases "blocks bc = []")
    case True
    then show ?thesis
      by (simp add: get_blocks_until_account_root_file_def scan_window_spec_def)
  next
    case False
    with valid have "case None of
                  None \<Rightarrow> (case last_block_number arf of
                              None \<Rightarrow> True
                            | Some a \<Rightarrow> a \<le> block_number (message (last (blocks bc))))
                | Some t \<Rightarrow> 0 \<le> t \<and> t \<le> block_number (message (last (blocks bc)))"
      by simp
    with seq False arf show ?thesis by (rule window_as_specified)
  qed
  show ?thesis
  proof (cases "find (carries_lock account) (scan_window_spec bc None arf)")
    case None
    with w arf show ?thesis
      by (simp add: get_account_balance_lock_def lock_from_window resolve_lock_spec_def)
  next
    case (Some b)
    then have "carries_lock account b" by (auto simp: find_Some_iff)
    from carries_lock_bind [OF this] obtain l
      where "Option.bind (map_of (updated_account_states (message b)) account) balance_lock = Some l"
      by blast
    with Some w show ?thesis
      by (simp add: get_account_balance_lock_def lock_from_window resolve_lock_spec_def)
  qed
qed

theorem get_account_balance_lock_resolves_witness:
  "get_account_balance_lock full_chain ''A'' = Inr (Some ''T3'') \<and>
   get_account_balance_lock full_chain ''B'' = Inr (Some ''T2'') \<and>
   get_account_balance_lock full_chain ''C'' = Inr None \<and>
   get_account_balance_lock pruned_chain ''A'' = Inr (Some ''T3'') \<and>
   get_account_balance_lock empty_chain ''A'' = Inr (Some ''L0'')"
proof (intro conjI)
  show "get_account_balance_lock full_chain ''A'' = Inr (Some ''T3'')"
    using get_account_balance_lock_resolves [of full_chain genesis "''A''"]
    by (simp add: resolution_eval resolve_lock_spec_def carries_lock_def get_balance_lock_def)
  show "get_account_balance_lock full_chain ''B'' = Inr (Some ''T2'')"
    using get_account_balance_lock_resolves [of full_chain genesis "''B''"]
    by (simp add: resolution_eval resolve_lock_spec_def carries_lock_def get_balance_lock_def)
  show "get_account_balance_lock full_chain ''C'' = Inr None"
    using get_account_balance_lock_resolves [of full_chain genesis "''C''"]
    by (simp add: resolution_eval resolve_lock_spec_def carries_lock_def get_balance_lock_def)
  show "get_account_balance_lock pruned_chain ''A'' = Inr (Some ''T3'')"
    using get_account_balance_lock_resolves [of pruned_chain snapshot_0 "''A''"]
    by (simp add: resolution_eval resolve_lock_spec_def carries_lock_def get_balance_lock_def)
  show "get_account_balance_lock empty_chain ''A'' = Inr (Some ''L0'')"
    using get_account_balance_lock_resolves [of empty_chain genesis "''A''"]
    by (simp add: resolution_eval resolve_lock_spec_def carries_lock_def get_balance_lock_def)
qed

text \<open>
  Claim C8. On a non-empty store, resolving a balance at a block number beyond the head's
  raises an error: the generator's \<open>islice\<close> gets a negative start and raises
  \<open>ValueError\<close> (an assertion fails when no snapshot is found); the snapshot's value is
  never returned.
\<close>

theorem get_account_balance_beyond_head:
  assumes ne: "blocks bc \<noteq> []"
    and gt: "block_number (message (last (blocks bc))) < t"
    and t0: "0 \<le> t"
  shows "get_account_balance bc account (Some t) =
           Inl (if get_closest_account_root_file bc (Some t) = None then AssertionError
                else ValueError ''Indices for islice() must be None or an integer: 0 <= x <= sys.maxsize.'')"
proof (cases "get_closest_account_root_file bc (Some t)")
  case None
  with ne t0 show ?thesis
    by (simp add: get_account_balance_def get_balance_from_block_def
        get_blocks_until_account_root_file_def get_balance_from_account_root_file_def)
next
  case (Some arf)
  then have "covers_at_or_before t arf" by (rule closest_covers)
  then have a: "case (Some t, last_block_number arf) of (Some s, Some a) \<Rightarrow> a \<le> s | _ \<Rightarrow> True"
    by (simp add: covers_at_or_before_def split: option.splits)
  from gt have neg: "block_number (message (last (blocks bc))) - t < 0" by simp
  then have "\<And>stop. islice (rev (blocks bc)) (block_number (message (last (blocks bc))) - t) stop
      = Inl (ValueError ''Indices for islice() must be None or an integer: 0 <= x <= sys.maxsize.'')"
    by (simp add: islice_def)
  with ne t0 Some a have "get_blocks_until_account_root_file bc (Some t)
      = [Inl (ValueError ''Indices for islice() must be None or an integer: 0 <= x <= sys.maxsize.'')]"
    by (simp add: get_blocks_until_account_root_file_def Let_def)
  with t0 Some show ?thesis
    by (simp add: get_account_balance_def get_balance_from_block_def)
qed

theorem get_account_balance_beyond_head_witness:
  "get_account_balance full_chain ''A'' (Some 3) =
     Inl (ValueError ''Indices for islice() must be None or an integer: 0 <= x <= sys.maxsize.'')"
  using get_account_balance_beyond_head [of full_chain 3 "''A''"]
  by (simp add: resolution_eval)

section \<open>Properties of the serialization\<close>

text \<open>
  Claim C10. Serializing a \<open>BlockAccountBalance\<close> omits the key \<open>lock\<close> when the lock
  is \<open>None\<close> and includes it, with the lock's value, when the lock is set; the serialized
  form of a record with an absent lock deserializes to a record whose lock is \<open>None\<close>
  (and whose value is unchanged).
\<close>

theorem override_to_dict_lock_key:
  "(lock b = None \<longrightarrow>
      ''lock'' \<notin> dom (override_to_dict b) \<and>
      (\<exists>r. from_dict (override_to_dict b) = Some r \<and> lock r = None \<and> value r = value b)) \<and>
   (lock b \<noteq> None \<longrightarrow>
      override_to_dict b ''lock'' = Some (lock_value (lock b)) \<and>
      override_to_dict b ''lock'' \<noteq> Some PNone)"
proof (intro conjI impI)
  assume n: "lock b = None"
  then show "''lock'' \<notin> dom (override_to_dict b)"
    by (simp add: override_to_dict_def super_to_dict_def dict_get_def lock_value_def)
  from n have "from_dict (override_to_dict b) = Some \<lparr>value = value b, lock = None\<rparr>"
    by (simp add: from_dict_def override_to_dict_def super_to_dict_def dict_get_def lock_value_def)
  then show "\<exists>r. from_dict (override_to_dict b) = Some r \<and> lock r = None \<and> value r = value b"
    by simp
next
  assume s: "lock b \<noteq> None"
  then obtain l where l: "lock b = Some l" by auto
  then show "override_to_dict b ''lock'' = Some (lock_value (lock b))"
    by (simp add: override_to_dict_def super_to_dict_def dict_get_def lock_value_def)
  from l show "override_to_dict b ''lock'' \<noteq> Some PNone"
    by (simp add: override_to_dict_def super_to_dict_def dict_get_def lock_value_def)
qed

theorem override_to_dict_lock_key_witness:
  "''lock'' \<notin> dom (override_to_dict \<lparr>value = 30, lock = None\<rparr>) \<and>
   (\<exists>r. from_dict (override_to_dict \<lparr>value = 30, lock = None\<rparr>) = Some r \<and>
        lock r = None \<and> value r = 30) \<and>
   override_to_dict \<lparr>value = 70, lock = Some ''T1''\<rparr> ''lock'' = Some (PStr ''T1'')"
  using override_to_dict_lock_key [of "\<lparr>value = 30, lock = None\<rparr>"]
    override_to_dict_lock_key [of "\<lparr>value = 70, lock = Some ''T1''\<rparr>"]
  by (simp add: lock_value_def)

section \<open>Properties of the block message validation\<close>

lemma and_then_Inr_iff:
  "and_then r k = Inr x \<longleftrightarrow> r = Inr () \<and> k = Inr x"
  by (cases r) (simp_all add: and_then_def)

lemma validate_account_entries_each:
  "validate_account_entries bc m sender entries = Inr () \<Longrightarrow>
   (account, st) \<in> set entries \<Longrightarrow>
   validate_updated_account_balance_lock m account st (account = sender) = Inr () \<and>
   validate_updated_account_balance bc m account st (account = sender) = Inr ()"
proof (induction entries)
  case Nil
  then show ?case by simp
next
  case (Cons e es)
  obtain a s where e: "e = (a, s)" by (cases e)
  from Cons.prems(1) e
  have l: "validate_updated_account_balance_lock m a s (a = sender) = Inr ()"
    and b: "validate_updated_account_balance bc m a s (a = sender) = Inr ()"
    and r: "validate_account_entries bc m sender es = Inr ()"
    by (simp_all add: Let_def and_then_Inr_iff)
  from Cons.prems(2) e have "(account, st) = (a, s) \<or> (account, st) \<in> set es" by simp
  then show ?case
  proof
    assume "(account, st) = (a, s)"
    with l b show ?thesis by simp
  next
    assume "(account, st) \<in> set es"
    with Cons.IH r show ?thesis by simp
  qed
qed

lemma validate_updated_account_states_each:
  assumes ok: "validate_updated_account_states bc m = Inr ()"
    and ct: "is_coin_transfer (signed_change_request m)"
    and mem: "(account, st) \<in> set (updated_account_states m)"
  shows "validate_updated_account_balance_lock m account st
           (account = signer (signed_change_request m)) = Inr () \<and>
         validate_updated_account_balance bc m account st
           (account = signer (signed_change_request m)) = Inr ()"
proof -
  from ok ct have "validate_account_entries bc m (signer (signed_change_request m))
      (updated_account_states m) = Inr ()"
    by (simp add: validate_updated_account_states_def Let_def and_then_Inr_iff)
  from validate_account_entries_each [OF this mem] show ?thesis .
qed



lemmas validation_eval =
  validate_updated_account_states_def validate_updated_account_balance_def
  validate_updated_account_balance_lock_def and_then_def validate_not_empty_def
  validate_empty_def validate_type_def validate_min_item_count_def
  validate_greater_than_zero_def validate_exact_value_def account_state_validate_def
  make_balance_lock_def lock_is_set_def lock_value_def get_sent_amount_def
  get_recipient_amount_def account_subject_def humanized_class_name_lowered_def
  get_account_balance_def get_balance_from_block_def get_blocks_until_account_root_file_def
  get_balance_from_account_root_file_def

lemma block_0_valid:
  "validate_updated_account_states empty_chain (message block_0) = Inr ()"
  by (simp add: validation_eval resolution_eval Let_def)

lemma other_block_valid:
  "validate_updated_account_states empty_chain (message other_block) = Inr ()"
  by (simp add: validate_updated_account_states_def and_then_def validate_not_empty_def
      other_block_def example_block_def transfer_def)



lemma balance_check_iff:
  "validate_updated_account_balance bc m account st is_sender = Inr () \<longleftrightarrow>
     (\<exists>prior. get_account_balance bc account (Some (block_number m - 1)) = Inr prior \<and>
        (if is_sender then 0 < prior \<and> balance st = prior - get_sent_amount m
         else balance st = prior + get_recipient_amount m account))"
  by (cases "get_account_balance bc account (Some (block_number m - 1))")
    (auto simp: validate_updated_account_balance_def Let_def and_then_Inr_iff
      validate_greater_than_zero_def validate_exact_value_def)

lemma balance_check_errors:
  assumes "get_account_balance bc account (Some (block_number m - 1)) = Inr prior"
  shows "validate_updated_account_balance bc m account st is_sender =
     (if is_sender then
        if prior \<le> 0
        then Inl (ValidatorError (''sender account '' @ account @ '' current balance'')
                    MustBeGreaterThanZero)
        else if balance st \<noteq> prior - get_sent_amount m
        then Inl (ValidatorError (''block message sender account '' @ account @ '' balance'')
                    (MustBeEqual (PInt (prior - get_sent_amount m)) (PInt (balance st))))
        else Inr ()
      else
        if balance st \<noteq> prior + get_recipient_amount m account
        then Inl (ValidatorError (''block message recipient account '' @ account @ '' balance'')
                    (MustBeEqual (PInt (prior + get_recipient_amount m account)) (PInt (balance st))))
        else Inr ())"
  using assms
  by (simp add: validate_updated_account_balance_def Let_def and_then_def
      validate_greater_than_zero_def validate_exact_value_def account_subject_def
      humanized_class_name_lowered_def)

text \<open>
  Claim C1, as the code has it. For an entry (account, state) of the block under
  validation, with the prior balance resolved as of block \<open>N - 1\<close>: the balance check
  succeeds exactly when the prior balance resolves and, for the request's signer, it is
  strictly positive and the state's balance is the prior balance minus the sent amount,
  and for any other account the state's balance is the prior balance plus the recipient
  amount; a mismatch raises a validation error whose subject names the account and which
  carries the expected and the actual value. The check runs for the entries of a coin
  transfer only: when the validation of the updated account states of a coin transfer
  succeeds, every entry satisfies the rule.
\<close>

theorem balance_rule:
  "(validate_updated_account_balance bc m account st
      (account = signer (signed_change_request m)) = Inr () \<longleftrightarrow>
      (\<exists>prior. get_account_balance bc account (Some (block_number m - 1)) = Inr prior \<and>
         (if account = signer (signed_change_request m)
          then 0 < prior \<and> balance st = prior - get_sent_amount m
          else balance st = prior + get_recipient_amount m account))) \<and>
   (get_account_balance bc account (Some (block_number m - 1)) = Inr prior \<longrightarrow>
      validate_updated_account_balance bc m account st
        (account = signer (signed_change_request m)) =
      (if account = signer (signed_change_request m) then
         if prior \<le> 0
         then Inl (ValidatorError (''sender account '' @ account @ '' current balance'')
                     MustBeGreaterThanZero)
         else if balance st \<noteq> prior - get_sent_amount m
         then Inl (ValidatorError (''block message sender account '' @ account @ '' balance'')
                     (MustBeEqual (PInt (prior - get_sent_amount m)) (PInt (balance st))))
         else Inr ()
       else
         if balance st \<noteq> prior + get_recipient_amount m account
         then Inl (ValidatorError (''block message recipient account '' @ account @ '' balance'')
                     (MustBeEqual (PInt (prior + get_recipient_amount m account)) (PInt (balance st))))
         else Inr ())) \<and>
   (is_coin_transfer (signed_change_request m) \<and> validate_updated_account_states bc m = Inr () \<longrightarrow>
      (\<forall>(a, s) \<in> set (updated_account_states m).
         \<exists>prior. get_account_balance bc a (Some (block_number m - 1)) = Inr prior \<and>
           (if a = signer (signed_change_request m)
            then 0 < prior \<and> balance s = prior - get_sent_amount m
            else balance s = prior + get_recipient_amount m a)))"
proof (intro conjI impI)
  show "validate_updated_account_balance bc m account st
      (account = signer (signed_change_request m)) = Inr () \<longleftrightarrow>
      (\<exists>prior. get_account_balance bc account (Some (block_number m - 1)) = Inr prior \<and>
         (if account = signer (signed_change_request m)
          then 0 < prior \<and> balance st = prior - get_sent_amount m
          else balance st = prior + get_recipient_amount m account))"
    by (rule balance_check_iff)
next
  assume "get_account_balance bc account (Some (block_number m - 1)) = Inr prior"
  then show "validate_updated_account_balance bc m account st
        (account = signer (signed_change_request m)) =
      (if account = signer (signed_change_request m) then
         if prior \<le> 0
         then Inl (ValidatorError (''sender account '' @ account @ '' current balance'')
                     MustBeGreaterThanZero)
         else if balance st \<noteq> prior - get_sent_amount m
         then Inl (ValidatorError (''block message sender account '' @ account @ '' balance'')
                     (MustBeEqual (PInt (prior - get_sent_amount m)) (PInt (balance st))))
         else Inr ()
       else
         if balance st \<noteq> prior + get_recipient_amount m account
         then Inl (ValidatorError (''block message recipient account '' @ account @ '' balance'')
                     (MustBeEqual (PInt (prior + get_recipient_amount m account)) (PInt (balance st))))
         else Inr ())"
    by (rule balance_check_errors)
next
  assume a: "is_coin_transfer (signed_change_request m) \<and> validate_updated_account_states bc m = Inr ()"
  show "\<forall>(a, s) \<in> set (updated_account_states m).
         \<exists>prior. get_account_balance bc a (Some (block_number m - 1)) = Inr prior \<and>
           (if a = signer (signed_change_request m)
            then 0 < prior \<and> balance s = prior - get_sent_amount m
            else balance s = prior + get_recipient_amount m a)"
  proof (clarify)
    fix x s assume "(x, s) \<in> set (updated_account_states m)"
    with a validate_updated_account_states_each [of bc m x s]
    have "validate_updated_account_balance bc m x s (x = signer (signed_change_request m)) = Inr ()"
      by simp
    then show "\<exists>prior. get_account_balance bc x (Some (block_number m - 1)) = Inr prior \<and>
           (if x = signer (signed_change_request m)
            then 0 < prior \<and> balance s = prior - get_sent_amount m
            else balance s = prior + get_recipient_amount m x)"
      by (simp only: balance_check_iff)
  qed
qed

lemma prior_A: "get_account_balance empty_chain ''A'' (Some (block_number (message block_0) - 1)) = Inr 100"
  by (simp add: validation_eval resolution_eval)

lemma prior_B: "get_account_balance empty_chain ''B'' (Some (block_number (message block_0) - 1)) = Inr 0"
  by (simp add: validation_eval resolution_eval)

theorem balance_rule_witness:
  "validate_updated_account_balance empty_chain (message block_0) ''A''
     \<lparr>balance = 70, balance_lock = Some ''T1''\<rparr> True = Inr () \<and>
   validate_updated_account_balance empty_chain (message block_0) ''A''
     \<lparr>balance = 100, balance_lock = Some ''T1''\<rparr> True =
     Inl (ValidatorError ''block message sender account A balance''
            (MustBeEqual (PInt 70) (PInt 100))) \<and>
   validate_updated_account_balance empty_chain (message block_0) ''B''
     \<lparr>balance = 31, balance_lock = None\<rparr> False =
     Inl (ValidatorError ''block message recipient account B balance''
            (MustBeEqual (PInt 30) (PInt 31))) \<and>
   validate_updated_account_balance empty_chain
     (message (example_block 0 1000 (transfer ''B'' ''A'' 5 ''T9'') [])) ''B''
     \<lparr>balance = - 5, balance_lock = Some ''T9''\<rparr> True =
     Inl (ValidatorError ''sender account B current balance'' MustBeGreaterThanZero) \<and>
   is_coin_transfer (signed_change_request (message block_0)) \<and>
   validate_updated_account_states empty_chain (message block_0) = Inr () \<and>
   (\<exists>s. map_of (updated_account_states (message block_0)) ''B'' = Some s \<and>
        balance s = 0 + get_recipient_amount (message block_0) ''B'')"
proof (intro conjI)
  show "validate_updated_account_balance empty_chain (message block_0) ''A''
     \<lparr>balance = 70, balance_lock = Some ''T1''\<rparr> True = Inr ()"
    using balance_rule [of empty_chain "message block_0" "''A''"
        "\<lparr>balance = 70, balance_lock = Some ''T1''\<rparr>" 100] prior_A
    by (simp add: example_defs get_sent_amount_def)
  show "validate_updated_account_balance empty_chain (message block_0) ''A''
     \<lparr>balance = 100, balance_lock = Some ''T1''\<rparr> True =
     Inl (ValidatorError ''block message sender account A balance''
            (MustBeEqual (PInt 70) (PInt 100)))"
    using balance_rule [of empty_chain "message block_0" "''A''"
        "\<lparr>balance = 100, balance_lock = Some ''T1''\<rparr>" 100] prior_A
    by (simp add: example_defs get_sent_amount_def)
  show "validate_updated_account_balance empty_chain (message block_0) ''B''
     \<lparr>balance = 31, balance_lock = None\<rparr> False =
     Inl (ValidatorError ''block message recipient account B balance''
            (MustBeEqual (PInt 30) (PInt 31)))"
    using balance_rule [of empty_chain "message block_0" "''B''"
        "\<lparr>balance = 31, balance_lock = None\<rparr>" 0] prior_B
    by (simp add: example_defs get_recipient_amount_def)
  show "validate_updated_account_balance empty_chain
     (message (example_block 0 1000 (transfer ''B'' ''A'' 5 ''T9'') [])) ''B''
     \<lparr>balance = - 5, balance_lock = Some ''T9''\<rparr> True =
     Inl (ValidatorError ''sender account B current balance'' MustBeGreaterThanZero)"
    using balance_rule [of empty_chain "message (example_block 0 1000 (transfer ''B'' ''A'' 5 ''T9'') [])"
        "''B''" "\<lparr>balance = - 5, balance_lock = Some ''T9''\<rparr>" 0] prior_B
    by (simp add: example_defs)
  show "is_coin_transfer (signed_change_request (message block_0))"
    by (simp add: example_defs)
  show "validate_updated_account_states empty_chain (message block_0) = Inr ()"
    by (rule block_0_valid)
  show "\<exists>s. map_of (updated_account_states (message block_0)) ''B'' = Some s \<and>
        balance s = 0 + get_recipient_amount (message block_0) ''B''"
    using balance_rule [of empty_chain "message block_0" "''B''" _ 0] block_0_valid prior_B
    by (simp add: example_defs get_recipient_amount_def)
qed

text \<open>
  A block whose request is no coin transfer validates its updated account states although
  the signer's new balance is not the prior balance minus the sent amount.
\<close>

theorem balance_rule_other_request_counterexample:
  "\<not> is_coin_transfer (signed_change_request (message other_block)) \<and>
   validate_updated_account_states empty_chain (message other_block) = Inr () \<and>
   signer (signed_change_request (message other_block)) = ''A'' \<and>
   map_of (updated_account_states (message other_block)) ''A''
     = Some \<lparr>balance = 999999, balance_lock = Some ''WRONG''\<rparr> \<and>
   get_account_balance empty_chain ''A'' (Some (block_number (message other_block) - 1)) = Inr 100 \<and>
   get_sent_amount (message other_block) = 30 \<and>
   validate_updated_account_balance empty_chain (message other_block) ''A''
     \<lparr>balance = 999999, balance_lock = Some ''WRONG''\<rparr> True \<noteq> Inr ()"
proof -
  have p: "get_account_balance empty_chain ''A'' (Some (block_number (message other_block) - 1)) = Inr 100"
    by (simp add: other_block_def validation_eval resolution_eval)
  with other_block_valid show ?thesis
    by (simp add: other_block_def example_block_def transfer_def get_sent_amount_def
        balance_check_iff)
qed

lemma check_min_timestamp_ok:
  "check_min_timestamp t r = Inr () \<longleftrightarrow> (\<exists>u. r = TsDatetime u None \<and> u < t)"
  by (auto simp: check_min_timestamp_def timestamp_le_def split: py_timestamp.splits option.splits)

lemma validate_timestamp_positive:
  assumes ts: "timestamp m = TsDatetime t None" and pos: "0 < block_number m"
  shows "validate_timestamp bc m = Inr () \<longleftrightarrow>
           (\<exists>u. timestamp_reference_spec bc (block_number m) = Some (TsDatetime u None) \<and> u < t)"
proof (cases "get_block_by_number bc (block_number m - 1)")
  case (Inl e)
  with ts pos show ?thesis
    by (simp add: validate_timestamp_def timestamp_reference_spec_def Let_def)
next
  case (Inr r)
  show ?thesis
  proof (cases r)
    case (Some pb)
    with Inr ts pos show ?thesis
      by (simp add: validate_timestamp_def timestamp_reference_spec_def Let_def
          check_min_timestamp_ok)
  next
    case None
    show ?thesis
    proof (cases "get_closest_blockchain_state_snapshot bc (block_number m)")
      case None
      with \<open>r = None\<close> Inr ts pos show ?thesis
        by (simp add: validate_timestamp_def timestamp_reference_spec_def Let_def)
    next
      case (Some a)
      with \<open>r = None\<close> Inr ts pos show ?thesis
        by (cases "last_block_timestamp a")
          (auto simp: validate_timestamp_def timestamp_reference_spec_def Let_def
            check_min_timestamp_ok is_initial_def)
    qed
  qed
qed

text \<open>
  Claim C6, as the code has it. Timestamp validation of block \<open>N\<close> succeeds exactly when
  the timestamp is a naive datetime and, for \<open>N > 0\<close>, it is strictly greater than the
  reference point: the timestamp of block \<open>N - 1\<close> when the store has it, otherwise the
  last block timestamp of the closest snapshot, whose last block number has to be exactly
  \<open>N - 1\<close>. So validation fails on a timestamp that is unset, no datetime or not naive,
  on a timestamp not greater than the reference, and when block \<open>N - 1\<close> is missing and
  no snapshot covers it exactly. Block 0 has no reference point: there the check of the
  naive datetime is the only one.
\<close>

theorem timestamp_rule:
  "validate_timestamp bc m = Inr () \<longleftrightarrow>
     (\<exists>t. timestamp m = TsDatetime t None \<and>
        (0 < block_number m \<longrightarrow>
           (\<exists>u. timestamp_reference_spec bc (block_number m) = Some (TsDatetime u None) \<and> u < t)))"
proof (cases "timestamp m")
  case TsNone
  then show ?thesis by (simp add: validate_timestamp_def)
next
  case TsNotDatetime
  then show ?thesis by (simp add: validate_timestamp_def)
next
  case (TsDatetime t tz)
  show ?thesis
  proof (cases tz)
    case (Some z)
    with TsDatetime show ?thesis by (simp add: validate_timestamp_def)
  next
    case None
    note naive = TsDatetime [unfolded None]
    show ?thesis
    proof (cases "0 < block_number m")
      case True
      from validate_timestamp_positive [OF naive True] naive True show ?thesis by simp
    next
      case False
      with naive show ?thesis by (simp add: validate_timestamp_def Let_def)
    qed
  qed
qed

lemmas timestamp_eval =
  timestamp_reference_spec_def get_block_by_number_def lookup_by_number_def py_index_def
  get_closest_blockchain_state_snapshot_def

theorem timestamp_rule_witness:
  "validate_timestamp full_chain (message (example_block 3 4000 (transfer ''A'' ''B'' 1 ''T4'') [])) = Inr () \<and>
   validate_timestamp full_chain (message (example_block 3 3000 (transfer ''A'' ''B'' 1 ''T4'') [])) \<noteq> Inr () \<and>
   validate_timestamp empty_chain (message block_1) \<noteq> Inr () \<and>
   validate_timestamp \<lparr>account_root_files = [genesis, snapshot_0], blocks = []\<rparr> (message block_1) = Inr () \<and>
   validate_timestamp empty_chain (message block_0) = Inr ()"
proof (intro conjI)
  show "validate_timestamp full_chain (message (example_block 3 4000 (transfer ''A'' ''B'' 1 ''T4'') [])) = Inr ()"
    using timestamp_rule [of full_chain "message (example_block 3 4000 (transfer ''A'' ''B'' 1 ''T4'') [])"]
    by (simp add: timestamp_eval resolution_eval)
  show "validate_timestamp full_chain (message (example_block 3 3000 (transfer ''A'' ''B'' 1 ''T4'') [])) \<noteq> Inr ()"
    using timestamp_rule [of full_chain "message (example_block 3 3000 (transfer ''A'' ''B'' 1 ''T4'') [])"]
    by (simp add: timestamp_eval resolution_eval)
  show "validate_timestamp empty_chain (message block_1) \<noteq> Inr ()"
    using timestamp_rule [of empty_chain "message block_1"]
    by (simp add: timestamp_eval resolution_eval)
  show "validate_timestamp \<lparr>account_root_files = [genesis, snapshot_0], blocks = []\<rparr> (message block_1) = Inr ()"
    using timestamp_rule [of "\<lparr>account_root_files = [genesis, snapshot_0], blocks = []\<rparr>" "message block_1"]
    by (simp add: timestamp_eval resolution_eval)
  show "validate_timestamp empty_chain (message block_0) = Inr ()"
    using timestamp_rule [of empty_chain "message block_0"]
    by (simp add: timestamp_eval resolution_eval)
qed

text \<open>
  Block 0 on the empty store: no block \<open>-1\<close> is stored and no snapshot has the last
  block number \<open>-1\<close>, and the timestamp validation succeeds.
\<close>

theorem timestamp_rule_block_0_counterexample:
  "validate_timestamp empty_chain (message block_0) = Inr () \<and>
   block_number (message block_0) = 0 \<and>
   block_numbers empty_chain = [] \<and>
   map last_block_number (account_root_files empty_chain) = [None] \<and>
   timestamp_reference_spec empty_chain 0 = None"
  by (simp add: validate_timestamp_def timestamp_eval block_numbers_def example_defs)

section \<open>Properties of chain validation\<close>

lemma validate_ignores_its_window:
  "validate validate_block bc block_offset block_limit = validate validate_block bc None None"
  by (simp add: validate_def)

text \<open>
  Claim C7. Chain validation fails with a validation error when there is no snapshot. With
  a window, \<open>validate\<close> does not pass its arguments on: on three stored blocks and the
  window (1, 1) it delegates all three blocks to per-block validation, where
  \<open>validate_blocks\<close> with the same window delegates the block at position 1 alone; with an
  offset and no limit \<open>validate_blocks\<close> takes the blocks before the offset. Every run
  ends in \<open>NotImplementedError\<close>.
\<close>

theorem validate_window_dropped:
  "validate (\<lambda>bc b. Inr ()) full_chain (Some 1) (Some 1)
     = ([block_0, block_1, block_2], NotImplementedError) \<and>
   validate_blocks (\<lambda>bc b. Inr ()) full_chain (Some 1) (Some 1)
     = ([block_1], NotImplementedError) \<and>
   validate_blocks (\<lambda>bc b. Inr ()) full_chain (Some 1) None
     = ([block_0], NotImplementedError) \<and>
   validate (\<lambda>bc b. Inr ()) \<lparr>account_root_files = [], blocks = [block_0]\<rparr> None None
     = ([], ValidationError ''Blockchain must contain at least one account root file'')"
  by (simp add: validate_def validate_blocks_def validate_account_root_files_def blocks_iter_def
      islice_def full_chain_def genesis_def)

section \<open>Properties of the store with object identity\<close>

lemma cell_append: "cell h a = Some obj \<Longrightarrow> cell (h @ e) a = Some obj"
  by (auto simp: cell_def nth_append split: if_splits)

lemma cell_fresh: "length pre = n \<Longrightarrow> cell (pre @ obj # e) n = Some obj"
  by (simp add: cell_def nth_append)

lemma read_state_append: "read_state h a = Some st \<Longrightarrow> read_state (h @ e) a = Some st"
  by (auto simp: read_state_def dest: cell_append [of h a _ e] split: option.splits pyobject.splits)

lemma read_entries_append:
  "read_entries h es = Some sts \<Longrightarrow> read_entries (h @ e) es = Some sts"
proof (induction es arbitrary: sts)
  case Nil
  then show ?case by simp
next
  case (Cons x es)
  obtain k a where x: "x = (k, a)" by (cases x)
  from Cons.prems x obtain st rest where
    st: "read_state h a = Some st" and rest: "read_entries h es = Some rest" and
    sts: "sts = (k, st) # rest"
    by (auto split: option.splits)
  from read_state_append [OF st] Cons.IH [OF rest] x sts show ?case by simp
qed

lemma read_dict_append: "read_dict h a = Some sts \<Longrightarrow> read_dict (h @ e) a = Some sts"
proof -
  assume r: "read_dict h a = Some sts"
  then obtain es where c: "cell h a = Some (DictObject es)" and en: "read_entries h es = Some sts"
    by (auto simp: read_dict_def split: option.splits pyobject.splits)
  from cell_append [OF c] read_entries_append [OF en] show ?thesis
    by (simp add: read_dict_def)
qed

lemma read_request_append: "read_request h a = Some r \<Longrightarrow> read_request (h @ e) a = Some r"
proof -
  assume "read_request h a = Some r"
  then have c: "cell h a = Some (RequestObject r)"
    by (auto simp: read_request_def split: option.splits pyobject.splits)
  from cell_append [OF c] show ?thesis by (simp add: read_request_def)
qed

lemma read_message_append: "read_message h a = Some m \<Longrightarrow> read_message (h @ e) a = Some m"
proof -
  assume r: "read_message h a = Some m"
  then obtain bt rq ts n bi d rv sts where
    c: "cell h a = Some (MessageObject bt rq ts n bi d)" and
    rr: "read_request h rq = Some rv" and rd: "read_dict h d = Some sts" and
    m: "m = \<lparr>block_type = bt, signed_change_request = rv, timestamp = ts,
              block_number = n, block_identifier = bi, updated_account_states = sts\<rparr>"
    by (auto simp: read_message_def split: option.splits pyobject.splits)
  from cell_append [OF c] read_request_append [OF rr] read_dict_append [OF rd] m
  show ?thesis by (simp add: read_message_def)
qed

lemma read_block_append: "read_block h a = Some b \<Longrightarrow> read_block (h @ e) a = Some b"
proof -
  assume r: "read_block h a = Some b"
  then obtain m msg where c: "cell h a = Some (BlockObject m)" and
    rm: "read_message h m = Some msg" and b: "b = \<lparr>message = msg\<rparr>"
    by (auto simp: read_block_def split: option.splits pyobject.splits)
  from cell_append [OF c] read_message_append [OF rm] b show ?thesis
    by (simp add: read_block_def)
qed

lemma alloc_entries_fresh:
  "\<exists>ext cs. alloc_entries h sts = (h @ ext, cs) \<and>
     (\<forall>pre. length pre = length h \<longrightarrow> read_entries (pre @ ext) cs = Some sts)"
proof (induction sts arbitrary: h)
  case Nil
  have "alloc_entries h [] = (h @ [], [])" by simp
  moreover have "\<forall>pre. length pre = length h \<longrightarrow> read_entries (pre @ []) [] = Some []" by simp
  ultimately show ?case by blast
next
  case (Cons x sts)
  obtain k st where x: "x = (k, st)" by (cases x)
  let ?h1 = "h @ [StateObject st]"
  from Cons.IH [of ?h1] obtain ext cs where
    a: "alloc_entries ?h1 sts = (?h1 @ ext, cs)" and
    r: "\<forall>pre. length pre = length ?h1 \<longrightarrow> read_entries (pre @ ext) cs = Some sts"
    by blast
  from a x have eq: "alloc_entries h (x # sts) = (h @ (StateObject st # ext), (k, length h) # cs)"
    by (simp add: alloc_def)
  have "\<forall>pre. length pre = length h \<longrightarrow>
          read_entries (pre @ (StateObject st # ext)) ((k, length h) # cs) = Some (x # sts)"
  proof (intro allI impI)
    fix pre :: heap assume len: "length pre = length h"
    then have c: "read_state (pre @ StateObject st # ext) (length h) = Some st"
      by (simp add: read_state_def cell_fresh)
    from len have "length (pre @ [StateObject st]) = length ?h1" by simp
    from r [rule_format, OF this]
    have "read_entries (pre @ StateObject st # ext) cs = Some sts" by simp
    with c x show "read_entries (pre @ (StateObject st # ext)) ((k, length h) # cs) = Some (x # sts)"
      by simp
  qed
  with eq show ?case by blast
qed

lemma alloc_dict_fresh:
  "\<exists>ext d. alloc_dict h sts = (h @ ext, d) \<and>
     (\<forall>pre. length pre = length h \<longrightarrow> read_dict (pre @ ext) d = Some sts)"
proof -
  from alloc_entries_fresh [of h sts] obtain e1 cs where
    a: "alloc_entries h sts = (h @ e1, cs)" and
    r: "\<forall>pre. length pre = length h \<longrightarrow> read_entries (pre @ e1) cs = Some sts"
    by blast
  let ?d = "length h + length e1"
  from a have eq: "alloc_dict h sts = (h @ (e1 @ [DictObject cs]), ?d)"
    by (simp add: alloc_dict_def alloc_def)
  have "\<forall>pre. length pre = length h \<longrightarrow> read_dict (pre @ (e1 @ [DictObject cs])) ?d = Some sts"
  proof (intro allI impI)
    fix pre :: heap assume len: "length pre = length h"
    then have "length (pre @ e1) = ?d" by simp
    then have c: "cell ((pre @ e1) @ DictObject cs # []) ?d = Some (DictObject cs)"
      by (rule cell_fresh)
    from len r have "read_entries (pre @ e1) cs = Some sts" by simp
    then have "read_entries ((pre @ e1) @ [DictObject cs]) cs = Some sts"
      by (rule read_entries_append)
    with c show "read_dict (pre @ (e1 @ [DictObject cs])) ?d = Some sts"
      by (simp add: read_dict_def)
  qed
  with eq show ?thesis by blast
qed

lemma alloc_message_fresh:
  "\<exists>ext c. alloc_message h m = (h @ ext, c) \<and>
     (\<forall>pre. length pre = length h \<longrightarrow> read_message (pre @ ext) c = Some m)"
proof -
  let ?rq = "RequestObject (signed_change_request m)"
  let ?h1 = "h @ [?rq]"
  from alloc_dict_fresh [of ?h1 "updated_account_states m"] obtain e2 d where
    a: "alloc_dict ?h1 (updated_account_states m) = (?h1 @ e2, d)" and
    r: "\<forall>pre. length pre = length ?h1 \<longrightarrow> read_dict (pre @ e2) d = Some (updated_account_states m)"
    by blast
  let ?mo = "MessageObject (block_type m) (length h) (timestamp m) (block_number m)
               (block_identifier m) d"
  let ?c = "length h + 1 + length e2"
  from a have eq: "alloc_message h m = (h @ (?rq # e2 @ [?mo]), ?c)"
    by (simp add: alloc_message_def alloc_def)
  have "\<forall>pre. length pre = length h \<longrightarrow> read_message (pre @ (?rq # e2 @ [?mo])) ?c = Some m"
  proof (intro allI impI)
    fix pre :: heap assume len: "length pre = length h"
    then have "length (pre @ ?rq # e2) = ?c" by simp
    then have "cell ((pre @ ?rq # e2) @ ?mo # []) ?c = Some ?mo" by (rule cell_fresh)
    then have c: "cell (pre @ (?rq # e2 @ [?mo])) ?c = Some ?mo" by simp
    from len have "cell (pre @ ?rq # (e2 @ [?mo])) (length h) = Some ?rq" by (rule cell_fresh)
    then have rr: "read_request (pre @ (?rq # e2 @ [?mo])) (length h) = Some (signed_change_request m)"
      by (simp add: read_request_def)
    from len have "length (pre @ [?rq]) = length ?h1" by simp
    from r [rule_format, OF this]
    have "read_dict (((pre @ [?rq]) @ e2) @ [?mo]) d = Some (updated_account_states m)"
      by (rule read_dict_append)
    then have rd: "read_dict (pre @ (?rq # e2 @ [?mo])) d = Some (updated_account_states m)"
      by simp
    from c rr rd show "read_message (pre @ (?rq # e2 @ [?mo])) ?c = Some m"
      by (simp add: read_message_def)
  qed
  with eq show ?thesis by blast
qed

lemma alloc_block_fresh:
  "\<exists>ext c. alloc_block h b = (h @ ext, c) \<and> length h \<le> c \<and>
     (\<forall>pre. length pre = length h \<longrightarrow> read_block (pre @ ext) c = Some b)"
proof -
  from alloc_message_fresh [of h "message b"] obtain e1 m where
    a: "alloc_message h (message b) = (h @ e1, m)" and
    r: "\<forall>pre. length pre = length h \<longrightarrow> read_message (pre @ e1) m = Some (message b)"
    by blast
  let ?c = "length h + length e1"
  from a have eq: "alloc_block h b = (h @ (e1 @ [BlockObject m]), ?c)"
    by (simp add: alloc_block_def alloc_def)
  have "\<forall>pre. length pre = length h \<longrightarrow> read_block (pre @ (e1 @ [BlockObject m])) ?c = Some b"
  proof (intro allI impI)
    fix pre :: heap assume len: "length pre = length h"
    then have "length (pre @ e1) = ?c" by simp
    then have c: "cell ((pre @ e1) @ BlockObject m # []) ?c = Some (BlockObject m)"
      by (rule cell_fresh)
    from len r have "read_message (pre @ e1) m = Some (message b)" by simp
    then have "read_message ((pre @ e1) @ [BlockObject m]) m = Some (message b)"
      by (rule read_message_append)
    with c show "read_block (pre @ (e1 @ [BlockObject m])) ?c = Some b"
      by (simp add: read_block_def)
  qed
  with eq show ?thesis by (intro exI [of _ "e1 @ [BlockObject m]"] exI [of _ ?c]) simp
qed

lemma lookup_head:
  "bs \<noteq> [] \<Longrightarrow> 0 \<le> num (last bs) \<Longrightarrow> lookup_by_number num bs (num (last bs)) = Inr (Some (last bs))"
proof -
  assume ne: "bs \<noteq> []" and nn: "0 \<le> num (last bs)"
  from ne obtain ys y where bs: "bs = ys @ [y]" by (cases bs rule: rev_cases) auto
  have "py_index (ys @ [y]) (- 1) = Some y"
    by (simp add: py_index_def)
  with bs have "py_index bs (- 1) = Some (last bs)" by simp
  with ne nn show ?thesis by (simp add: lookup_by_number_def)
qed

lemma block_number_at_append:
  "block_number_at h r \<noteq> None \<Longrightarrow> block_number_at (h @ e) r \<noteq> None"
  by (auto simp: block_number_at_def dest: read_block_append)

text \<open>
  Claim C9, as the code has it. For a block object \<open>B\<close> (at address \<open>a\<close>) with a
  non-negative block number, appended to a store of blocks: after \<open>persist_block(B)\<close>
  the lookup of \<open>B\<close>'s block number returns an object whose content equals \<open>B\<close>'s.
  That object is an independent deep copy: it is a new object, and its content stays what
  it is under an assignment inside any object that existed before the append, \<open>B\<close>
  and everything reachable from \<open>B\<close> included. The lookup returns the stored object
  itself, the last reference of the store, not a copy of it.
\<close>

theorem persist_then_lookup:
  assumes b: "read_block h a = Some B"
    and nn: "0 \<le> block_number (message B)"
    and wf: "list_all (\<lambda>r. block_number_at h r \<noteq> None) (block_refs s)"
  shows "\<exists>h' s' r.
           persist_block_ref h s a = Some (h', s') \<and>
           get_block_by_number_ref h' s' (block_number (message B)) = Inr (Some r) \<and>
           read_block h' r = Some B \<and>
           length h \<le> r \<and>
           (\<forall>x v. x < length h \<longrightarrow> read_block (mutate h' x v) r = Some B) \<and>
           r = last (block_refs s')"
proof -
  from alloc_block_fresh [of h B] obtain ext c where
    al: "alloc_block h B = (h @ ext, c)" and fresh_addr: "length h \<le> c" and
    fresh: "\<forall>pre. length pre = length h \<longrightarrow> read_block (pre @ ext) c = Some B"
    by blast
  let ?h = "h @ ext"
  let ?s = "s\<lparr>block_refs := block_refs s @ [c]\<rparr>"
  let ?num = "\<lambda>a. case block_number_at ?h a of Some k \<Rightarrow> k | None \<Rightarrow> 0"
  from b al have p: "persist_block_ref h s a = Some (?h, ?s)"
    by (simp add: persist_block_ref_def deepcopy_def)
  from fresh have rd: "read_block ?h c = Some B" by simp
  then have nc: "block_number_at ?h c = Some (block_number (message B))"
    by (simp add: block_number_at_def)
  from wf have "list_all (\<lambda>r. block_number_at ?h r \<noteq> None) (block_refs s)"
    unfolding list_all_iff using block_number_at_append [of h _ ext] by blast
  with nc have all: "list_all (\<lambda>r. block_number_at ?h r \<noteq> None) (block_refs ?s)"
    by simp
  from nn nc have "lookup_by_number ?num (block_refs ?s) (?num (last (block_refs ?s)))
      = Inr (Some (last (block_refs ?s)))"
    by (intro lookup_head) simp_all
  with nc all have g: "get_block_by_number_ref ?h ?s (block_number (message B)) = Inr (Some c)"
    by (simp add: get_block_by_number_ref_def)
  have iso: "\<forall>x v. x < length h \<longrightarrow> read_block (mutate ?h x v) c = Some B"
  proof (intro allI impI)
    fix x v assume "x < length h"
    then have "mutate ?h x v = h[x := v] @ ext"
      by (simp add: mutate_def list_update_append1)
    moreover from fresh have "read_block (h[x := v] @ ext) c = Some B" by simp
    ultimately show "read_block (mutate ?h x v) c = Some B" by simp
  qed
  have l: "c = last (block_refs ?s)" by simp
  from p g rd fresh_addr iso l show ?thesis by blast
qed

lemmas heap_eval =
  alloc_block_def alloc_message_def alloc_dict_def alloc_def read_block_def read_message_def
  read_dict_def read_request_def read_state_def cell_def block_number_at_def

lemma caller_heap_cells:
  "caller_heap =
     [RequestObject (transfer ''A'' ''B'' 30 ''T1''),
      StateObject \<lparr>balance = 70, balance_lock = Some ''T1''\<rparr>,
      StateObject \<lparr>balance = 30, balance_lock = None\<rparr>,
      DictObject [(''A'', 1), (''B'', 2)],
      MessageObject ''ct'' 0 (TsDatetime 1000 None) 0 ''id'' 3,
      BlockObject 4]"
  by (simp add: caller_heap_def heap_eval block_0_def example_block_def)

lemma appended_heap_cells:
  "appended_heap = caller_heap @
     [RequestObject (transfer ''A'' ''B'' 30 ''T1''),
      StateObject \<lparr>balance = 70, balance_lock = Some ''T1''\<rparr>,
      StateObject \<lparr>balance = 30, balance_lock = None\<rparr>,
      DictObject [(''A'', 7), (''B'', 8)],
      MessageObject ''ct'' 6 (TsDatetime 1000 None) 0 ''id'' 9,
      BlockObject 10]"
  by (simp add: appended_heap_def caller_heap_cells heap_eval block_0_def example_block_def)

lemma caller_block: "read_block caller_heap 5 = Some block_0"
  by (simp add: caller_heap_cells heap_eval block_0_def example_block_def)

lemma persist_block_0:
  "persist_block_ref caller_heap empty_store 5 = Some (appended_heap, appended_store)"
proof -
  have d: "deepcopy caller_heap 5 = Some (alloc_block caller_heap block_0)"
    by (simp add: deepcopy_def caller_block)
  have "snd (alloc_block caller_heap block_0) = 11"
    by (simp add: caller_heap_cells alloc_block_def alloc_message_def alloc_dict_def alloc_def
        block_0_def example_block_def)
  then have "alloc_block caller_heap block_0 = (appended_heap, 11)"
    by (simp add: appended_heap_def prod_eq_iff)
  with d show ?thesis
    by (simp add: persist_block_ref_def appended_store_def empty_store_def)
qed

theorem persist_then_lookup_witness:
  "persist_block_ref caller_heap empty_store 5 = Some (appended_heap, appended_store) \<and>
   get_block_by_number_ref appended_heap appended_store 0 = Inr (Some 11) \<and>
   read_block appended_heap 11 = Some block_0 \<and>
   read_block (mutate appended_heap 4
     (MessageObject ''ct'' 0 (TsDatetime 1000 None) 7 ''id'' 3)) 11 = Some block_0 \<and>
   read_block (mutate appended_heap 1 (StateObject \<lparr>balance = 0, balance_lock = None\<rparr>)) 11
     = Some block_0"
proof -
  have nn: "0 \<le> block_number (message block_0)" by (simp add: example_defs)
  have wf: "list_all (\<lambda>r. block_number_at caller_heap r \<noteq> None) (block_refs empty_store)"
    by (simp add: empty_store_def)
  from persist_then_lookup [OF caller_block nn wf]
  obtain h' s' r where
    p: "persist_block_ref caller_heap empty_store 5 = Some (h', s')" and
    g: "get_block_by_number_ref h' s' (block_number (message block_0)) = Inr (Some r)" and
    c: "read_block h' r = Some block_0" and
    iso: "\<forall>x v. x < length caller_heap \<longrightarrow> read_block (mutate h' x v) r = Some block_0" and
    l: "r = last (block_refs s')"
    by blast
  from p persist_block_0 have h': "h' = appended_heap" and s': "s' = appended_store"
    by simp_all
  from l s' have r: "r = 11" by (simp add: appended_store_def)
  have zero: "block_number (message block_0) = 0" by (simp add: example_defs)
  have len: "length caller_heap = 6" by (simp add: caller_heap_cells)
  from iso [rule_format, of 4] iso [rule_format, of 1] len h' r
  have m: "read_block (mutate appended_heap 4
     (MessageObject ''ct'' 0 (TsDatetime 1000 None) 7 ''id'' 3)) 11 = Some block_0"
    "read_block (mutate appended_heap 1 (StateObject \<lparr>balance = 0, balance_lock = None\<rparr>)) 11
     = Some block_0"
    by simp_all
  from persist_block_0 g c h' s' r zero m show ?thesis by simp
qed

text \<open>
  Block 0 appended to the empty store and looked up again: the lookup returns the stored
  block object (address 11, whose message is the object at address 10), and an assignment
  to the block number of the returned object's message changes what the store holds.
  A block whose block number is \<open>-1\<close> is appended as well, and the lookup of its
  number raises \<open>ValueError\<close>.
\<close>

lemma negative_heap_cells:
  "negative_heap =
     [RequestObject (transfer ''A'' ''B'' 30 ''T1''),
      DictObject [],
      MessageObject ''ct'' 0 (TsDatetime 1000 None) (- 1) ''id'' 1,
      BlockObject 2]"
  by (simp add: negative_heap_def heap_eval negative_block_def example_block_def)

lemma persist_negative:
  "persist_block_ref negative_heap empty_store 3
     = Some (negative_appended_heap, empty_store\<lparr>block_refs := [7]\<rparr>)"
proof -
  have "read_block negative_heap 3 = Some negative_block"
    by (simp add: negative_heap_cells heap_eval negative_block_def example_block_def)
  then have d: "deepcopy negative_heap 3 = Some (alloc_block negative_heap negative_block)"
    by (simp add: deepcopy_def)
  have "snd (alloc_block negative_heap negative_block) = 7"
    by (simp add: negative_heap_cells alloc_block_def alloc_message_def alloc_dict_def alloc_def
        negative_block_def example_block_def)
  then have "alloc_block negative_heap negative_block = (negative_appended_heap, 7)"
    by (simp add: negative_appended_heap_def prod_eq_iff)
  with d show ?thesis
    by (simp add: persist_block_ref_def empty_store_def)
qed

theorem lookup_returns_stored_object_counterexample:
  "persist_block_ref caller_heap empty_store 5 = Some (appended_heap, appended_store) \<and>
   get_block_by_number_ref appended_heap appended_store 0 = Inr (Some 11) \<and>
   cell appended_heap 11 = Some (BlockObject 10) \<and>
   stored_blocks appended_heap appended_store = [Some block_0] \<and>
   stored_blocks (mutate appended_heap 10
     (MessageObject ''ct'' 6 (TsDatetime 1000 None) 7 ''id'' 9)) appended_store
     \<noteq> [Some block_0] \<and>
   persist_block_ref negative_heap empty_store 3
     = Some (negative_appended_heap, empty_store\<lparr>block_refs := [7]\<rparr>) \<and>
   block_number (message negative_block) = - 1 \<and>
   get_block_by_number_ref negative_appended_heap (empty_store\<lparr>block_refs := [7]\<rparr>) (- 1)
     = Inl (ValueError ''block_number must be greater or equal to 0'')"
proof (intro conjI)
  show "persist_block_ref caller_heap empty_store 5 = Some (appended_heap, appended_store)"
    by (rule persist_block_0)
  show "get_block_by_number_ref appended_heap appended_store 0 = Inr (Some 11)"
    by (simp add: get_block_by_number_ref_def lookup_by_number_def py_index_def
        appended_store_def appended_heap_cells caller_heap_cells heap_eval)
  show "cell appended_heap 11 = Some (BlockObject 10)"
    by (simp add: appended_heap_cells caller_heap_cells cell_def)
  show "stored_blocks appended_heap appended_store = [Some block_0]"
    by (simp add: stored_blocks_def appended_store_def appended_heap_cells caller_heap_cells
        heap_eval block_0_def example_block_def)
  show "stored_blocks (mutate appended_heap 10
     (MessageObject ''ct'' 6 (TsDatetime 1000 None) 7 ''id'' 9)) appended_store
     \<noteq> [Some block_0]"
    by (simp add: stored_blocks_def mutate_def appended_store_def appended_heap_cells
        caller_heap_cells heap_eval block_0_def example_block_def)
  show "persist_block_ref negative_heap empty_store 3
     = Some (negative_appended_heap, empty_store\<lparr>block_refs := [7]\<rparr>)"
    by (rule persist_negative)
  show "block_number (message negative_block) = - 1"
    by (simp add: negative_block_def example_block_def)
  show "get_block_by_number_ref negative_appended_heap (empty_store\<lparr>block_refs := [7]\<rparr>) (- 1)
     = Inl (ValueError ''block_number must be greater or equal to 0'')"
    by (simp add: get_block_by_number_ref_def lookup_by_number_def negative_appended_heap_def
        negative_heap_cells heap_eval negative_block_def example_block_def)
qed

end
